theory Spec2Isabelle
  imports Main
begin

chapter \<open>The conversational core of Edumatee\<close>

text \<open>
  A shallow embedding of the parts of the study assistant that talk to the model and to
  the browser's speech engines: the service \<^verbatim>\<open>services/geminiService\<close>, the hook
  \<^verbatim>\<open>hooks/useSpeech\<close> and the handlers of the three streaming panels (explainer,
  interview trainer, code generator). State cells of React are fields of records, a
  handler is a function from the state before it to the state after it, a thrown value
  is the left branch of a sum, and what the remote model or a browser engine does is an
  argument or an event.
\<close>

section \<open>JavaScript values\<close>

text \<open>
  A value caught by \<^verbatim>\<open>catch (err)\<close>. The handlers of the panels only ask
  \<^verbatim>\<open>err instanceof Error ? err.message : ...\<close>, so a thrown value is either an
  \<^verbatim>\<open>Error\<close> with its message or something that is not an \<^verbatim>\<open>Error\<close>.
\<close>

datatype thrown = Error string | NotAnError

text \<open>
  \<^verbatim>\<open>String.prototype.trim\<close> on the ASCII range: tab, line feed, vertical tab, form
  feed, carriage return and space are stripped at both ends. A string is truthy when it
  is not empty.
\<close>

definition is_js_space :: "char \<Rightarrow> bool" where
  "is_js_space c = (c \<in> set [CHR 0x09, CHR 0x0A, CHR 0x0B, CHR 0x0C, CHR 0x0D, CHR 0x20])"

definition js_trim :: "string \<Rightarrow> string" where
  "js_trim s = rev (dropWhile is_js_space (rev (dropWhile is_js_space s)))"

definition truthy :: "string \<Rightarrow> bool" where
  "truthy s = (s \<noteq> [])"

section \<open>The speech hook: hooks/useSpeech\<close>

subsection \<open>The browser's engines\<close>

text \<open>
  \<^verbatim>\<open>window.speechSynthesis\<close> is the browser's engine, not code of the repository. It
  is one global queue of utterances whose head is the utterance being spoken:
  \<^verbatim>\<open>cancel()\<close> removes every utterance, \<^verbatim>\<open>speak(u)\<close> appends one, and when the
  spoken utterance ends the engine drops it and goes on with the next.
\<close>

record utterance =
  utext :: string

definition synth_cancel :: "utterance list \<Rightarrow> utterance list" where
  "synth_cancel q = []"

definition synth_speak :: "utterance \<Rightarrow> utterance list \<Rightarrow> utterance list" where
  "synth_speak u q = q @ [u]"

definition synth_ended :: "utterance list \<Rightarrow> utterance list" where
  "synth_ended q = tl q"

text \<open>
  A \<^verbatim>\<open>SpeechRecognition\<close> object. \<^verbatim>\<open>start()\<close> throws when the object is already
  started; \<^verbatim>\<open>stop()\<close> on a capturing object lets it deliver what it has and then
  end, and does nothing otherwise. Beside the engine's state the object carries what its
  \<^verbatim>\<open>onend\<close> handler closed over: the value \<^verbatim>\<open>isListening\<close> had in the render
  whose effect created the object.
\<close>

datatype capture = Inactive | Capturing | Stopping

record recognition =
  capture :: capture
  seen_isListening :: bool

definition recognition_start :: "recognition \<Rightarrow> recognition option" where
  "recognition_start r = (if capture r = Inactive then Some (r\<lparr>capture := Capturing\<rparr>) else None)"

definition recognition_stop :: "recognition \<Rightarrow> recognition" where
  "recognition_stop r = (if capture r = Capturing then r\<lparr>capture := Stopping\<rparr> else r)"

text \<open>
  One result of a recognition event: its alternatives, best first, and whether it is
  final. \<^verbatim>\<open>event.results\<close> is the list of the results of the session so far.
\<close>

record sr_result =
  alternatives :: "string list"
  isFinal :: bool

subsection \<open>The hook's state\<close>

text \<open>
  \<^verbatim>\<open>speechSynthesis\<close> is the queue of the browser's one engine as the hook finds
  it, with whatever other components have queued, and \<open>None\<close> in a browser without
  synthesis. \<^verbatim>\<open>SpeechRecognition\<close> tells whether the constructor exists. \<open>recognitions\<close> are
  the objects the effect has created so far, oldest first; \<^verbatim>\<open>recognitionRef.current\<close>
  is the last one, and \<^verbatim>\<open>null\<close> when there is none.
\<close>

record speech =
  speechSynthesis :: "utterance list option"
  SpeechRecognition :: bool
  recognitions :: "recognition list"
  isListening :: bool
  isSpeaking :: bool

text \<open>
  The effect of \<^verbatim>\<open>useEffect(..., [isListening, onTranscript])\<close>: a new recognition
  object whose handlers close over the current \<^verbatim>\<open>isListening\<close>; its cleanup cancels
  the synthesis. A re-render whose dependencies changed runs the cleanup of the previous
  effect and then the effect again. Every caller passes an inline arrow function as
  \<^verbatim>\<open>onTranscript\<close>, so the dependencies change with every render.
\<close>

definition useSpeech_effect :: "speech \<Rightarrow> speech" where
  "useSpeech_effect w =
     (if SpeechRecognition w
      then w\<lparr>recognitions := recognitions w @ [\<lparr>capture = Inactive, seen_isListening = isListening w\<rparr>]\<rparr>
      else w)"

definition useSpeech_cleanup :: "speech \<Rightarrow> speech" where
  "useSpeech_cleanup w =
     (case speechSynthesis w of
        None \<Rightarrow> w
      | Some q \<Rightarrow> w\<lparr>speechSynthesis := Some (synth_cancel q)\<rparr>)"

definition rerender :: "speech \<Rightarrow> speech" where
  "rerender w = useSpeech_effect (useSpeech_cleanup w)"

definition startListening :: "speech \<Rightarrow> speech" where
  "startListening w =
     (if recognitions w \<noteq> [] \<and> \<not> isListening w then
        (case recognition_start (last (recognitions w)) of
           None \<Rightarrow> w
         | Some r \<Rightarrow> w\<lparr>recognitions := butlast (recognitions w) @ [r], isListening := True\<rparr>)
      else w)"

definition stopListening :: "speech \<Rightarrow> speech" where
  "stopListening w =
     (if recognitions w \<noteq> [] \<and> isListening w then
        w\<lparr>recognitions := butlast (recognitions w) @ [recognition_stop (last (recognitions w))],
          isListening := False\<rparr>
      else w)"

definition speak :: "string \<Rightarrow> speech \<Rightarrow> speech" where
  "speak text w =
     (case speechSynthesis w of
        None \<Rightarrow> w
      | Some q \<Rightarrow>
          if \<not> truthy text then w
          else w\<lparr>speechSynthesis := Some (synth_speak \<lparr>utext = text\<rparr> (synth_cancel q))\<rparr>)"

definition cancelSpeech :: "speech \<Rightarrow> speech" where
  "cancelSpeech w =
     (case speechSynthesis w of
        None \<Rightarrow> w
      | Some q \<Rightarrow> w\<lparr>speechSynthesis := Some (synth_cancel q), isSpeaking := False\<rparr>)"

subsection \<open>The handlers the hook installs\<close>

text \<open>
  \<^verbatim>\<open>recognition.onresult\<close>: the first alternative of every result, joined with the
  empty separator, is handed to \<^verbatim>\<open>onTranscript\<close>. A result without alternatives makes
  \<^verbatim>\<open>result[0]\<close> undefined and the handler throws before it calls \<^verbatim>\<open>onTranscript\<close>.
\<close>

fun first_alternative :: "sr_result \<Rightarrow> string option" where
  "first_alternative r = (case alternatives r of [] \<Rightarrow> None | t # _ \<Rightarrow> Some t)"

fun all_some :: "'a option list \<Rightarrow> 'a list option" where
  "all_some [] = Some []"
| "all_some (None # _) = None"
| "all_some (Some x # xs) = (case all_some xs of None \<Rightarrow> None | Some ys \<Rightarrow> Some (x # ys))"

definition event_transcript :: "sr_result list \<Rightarrow> string option" where
  "event_transcript results = map_option concat (all_some (map first_alternative results))"

definition recognition_onresult :: "(string \<Rightarrow> 'c \<Rightarrow> 'c) \<Rightarrow> sr_result list \<Rightarrow> 'c \<Rightarrow> 'c" where
  "recognition_onresult onTranscript results c =
     (case event_transcript results of
        None \<Rightarrow> c
      | Some transcript \<Rightarrow> onTranscript transcript c)"

text \<open>
  \<^verbatim>\<open>recognition.onend\<close> of the object at index \<open>i\<close>: the engine has ended the
  capture; the handler starts the same object again when the \<^verbatim>\<open>isListening\<close> it
  closed over is true.
\<close>

definition recognition_onend :: "nat \<Rightarrow> speech \<Rightarrow> speech" where
  "recognition_onend i w =
     (if i < length (recognitions w) \<and> capture (recognitions w ! i) \<noteq> Inactive then
        (let r = recognitions w ! i;
             r' = r\<lparr>capture := Inactive\<rparr>;
             r'' = (if seen_isListening r then
                      (case recognition_start r' of None \<Rightarrow> r' | Some s \<Rightarrow> s)
                    else r')
         in w\<lparr>recognitions := (recognitions w)[i := r'']\<rparr>)
      else w)"

text \<open>
  The handlers of an utterance: \<^verbatim>\<open>onstart\<close> sets \<^verbatim>\<open>isSpeaking\<close>, \<^verbatim>\<open>onend\<close> and
  \<^verbatim>\<open>onerror\<close> clear it.
\<close>

definition utterance_onstart :: "speech \<Rightarrow> speech" where
  "utterance_onstart w = w\<lparr>isSpeaking := True\<rparr>"

definition utterance_onend :: "speech \<Rightarrow> speech" where
  "utterance_onend w = w\<lparr>isSpeaking := False\<rparr>"

definition utterance_onerror :: "speech \<Rightarrow> speech" where
  "utterance_onerror w = w\<lparr>isSpeaking := False\<rparr>"

subsection \<open>Runs of the hook\<close>

text \<open>
  What can happen to a mounted hook, one event at a time: a call of one of its four
  functions, a re-render of the host component, and the events of the two engines. The
  engine fires \<^verbatim>\<open>result\<close> and \<^verbatim>\<open>end\<close> only on an object that is not inactive, and
  \<^verbatim>\<open>start\<close> and \<^verbatim>\<open>end\<close> of an utterance only when the queue has one; the error
  of an utterance, which it also reports for one it has cancelled, can come at any time.
  A call that changes \<^verbatim>\<open>isListening\<close> or \<^verbatim>\<open>isSpeaking\<close> makes React render the
  host again. The second component of the state is the caller's, which
  \<^verbatim>\<open>onTranscript\<close> writes.
\<close>

datatype event =
    StartListening
  | StopListening
  | Speak string
  | CancelSpeech
  | Render
  | EngineResult nat "sr_result list"
  | EngineEnd nat
  | UtteranceStart
  | UtteranceEnd
  | UtteranceError

definition committed :: "speech \<Rightarrow> speech \<Rightarrow> speech" where
  "committed w w' =
     (if isListening w' \<noteq> isListening w \<or> isSpeaking w' \<noteq> isSpeaking w then rerender w' else w')"

definition engine_utterance_ended :: "speech \<Rightarrow> speech" where
  "engine_utterance_ended w =
     (case speechSynthesis w of
        None \<Rightarrow> w
      | Some q \<Rightarrow> if q = [] then w else utterance_onend (w\<lparr>speechSynthesis := Some (synth_ended q)\<rparr>))"

definition engine_utterance_started :: "speech \<Rightarrow> speech" where
  "engine_utterance_started w =
     (case speechSynthesis w of
        None \<Rightarrow> w
      | Some q \<Rightarrow> if q = [] then w else utterance_onstart w)"

fun step :: "(string \<Rightarrow> 'c \<Rightarrow> 'c) \<Rightarrow> event \<Rightarrow> speech \<times> 'c \<Rightarrow> speech \<times> 'c" where
  "step onTranscript StartListening (w, c) = (committed w (startListening w), c)"
| "step onTranscript StopListening (w, c) = (committed w (stopListening w), c)"
| "step onTranscript (Speak text) (w, c) = (speak text w, c)"
| "step onTranscript CancelSpeech (w, c) = (committed w (cancelSpeech w), c)"
| "step onTranscript Render (w, c) = (rerender w, c)"
| "step onTranscript (EngineResult i results) (w, c) =
     (if i < length (recognitions w) \<and> capture (recognitions w ! i) \<noteq> Inactive
      then (w, recognition_onresult onTranscript results c)
      else (w, c))"
| "step onTranscript (EngineEnd i) (w, c) = (recognition_onend i w, c)"
| "step onTranscript UtteranceStart (w, c) = (committed w (engine_utterance_started w), c)"
| "step onTranscript UtteranceEnd (w, c) = (committed w (engine_utterance_ended w), c)"
| "step onTranscript UtteranceError (w, c) = (committed w (utterance_onerror w), c)"

fun run :: "(string \<Rightarrow> 'c \<Rightarrow> 'c) \<Rightarrow> event list \<Rightarrow> speech \<times> 'c \<Rightarrow> speech \<times> 'c" where
  "run onTranscript [] s = s"
| "run onTranscript (e # es) s = run onTranscript es (step onTranscript e s)"

text \<open>The hook right after its host has mounted: nothing spoken, the effect run once.\<close>

definition mounted :: "bool \<Rightarrow> bool \<Rightarrow> speech" where
  "mounted synthesis recognition =
     useSpeech_effect
       \<lparr>speechSynthesis = (if synthesis then Some [] else None),
        SpeechRecognition = recognition,
        recognitions = [],
        isListening = False,
        isSpeaking = False\<rparr>"

text \<open>The utterances the engine holds: the one being spoken and those waiting.\<close>

definition queue :: "speech \<Rightarrow> utterance list" where
  "queue w = (case speechSynthesis w of None \<Rightarrow> [] | Some q \<Rightarrow> q)"

fun is_Speak :: "event \<Rightarrow> bool" where
  "is_Speak (Speak _) = True"
| "is_Speak _ = False"

lemmas hook_defs = speak_def cancelSpeech_def startListening_def stopListening_def rerender_def
  useSpeech_effect_def useSpeech_cleanup_def committed_def engine_utterance_ended_def
  engine_utterance_started_def utterance_onstart_def utterance_onend_def utterance_onerror_def
  recognition_onend_def
  synth_cancel_def synth_speak_def synth_ended_def

section \<open>The data model: types.ts\<close>

datatype role = User | Model

record fileInfo =
  name :: string
  type :: string

record message =
  id :: string
  role :: role
  content :: string
  fileInfo :: "fileInfo option"

record Note =
  note_id :: string
  title :: string
  subject :: string
  note_content :: string
  lastModified :: string

record skillGoal =
  goal_id :: string
  goal_title :: string
  description :: string
  targetDate :: string
  status :: string

section \<open>JSON\<close>

text \<open>
  \<^verbatim>\<open>JSON.parse\<close> is the platform's parser, not code of the repository. The parser
  below reads the JSON grammar (objects, arrays, strings, numbers, \<^verbatim>\<open>true\<close>,
  \<^verbatim>\<open>false\<close>, \<^verbatim>\<open>null\<close>, white space between tokens) and returns \<open>None\<close> where
  \<^verbatim>\<open>JSON.parse\<close> throws a \<^verbatim>\<open>SyntaxError\<close>. A string is kept as it is written
  between its quotes, escapes undecoded, and a number as its lexeme: the service only
  passes the parsed value on.
\<close>

datatype json =
    JNull
  | JBool bool
  | JNumber string
  | JString string
  | JArray "json list"
  | JObject "(string \<times> json) list"

definition is_json_ws :: "char \<Rightarrow> bool" where
  "is_json_ws c = (c \<in> set [CHR 0x20, CHR 0x09, CHR 0x0A, CHR 0x0D])"

definition skip_ws :: "string \<Rightarrow> string" where
  "skip_ws s = dropWhile is_json_ws s"

definition is_digit :: "char \<Rightarrow> bool" where
  "is_digit c = (c \<in> set ''0123456789'')"

definition is_hex :: "char \<Rightarrow> bool" where
  "is_hex c = (c \<in> set ''0123456789abcdefABCDEF'')"

definition is_simple_escape :: "char \<Rightarrow> bool" where
  "is_simple_escape c = (c \<in> set [CHR 0x22, CHR 0x5C, CHR ''/'', CHR ''b'', CHR ''f'', CHR ''n'', CHR ''r'', CHR ''t''])"

text \<open>
  The rest of a string after its opening quote: the characters up to the closing quote,
  and what follows it. A control character, a backslash before anything but an escape,
  and the end of the input before the closing quote are errors.
\<close>

function scan_string :: "string \<Rightarrow> (string \<times> string) option" where
  "scan_string [] = None"
| "scan_string (c # cs) =
     (if c = CHR 0x22 then Some ([], cs)
      else if c = CHR 0x5C then
        (case cs of
           [] \<Rightarrow> None
         | e # es \<Rightarrow>
             if is_simple_escape e then
               (case scan_string es of
                  None \<Rightarrow> None
                | Some (t, r) \<Rightarrow> Some (c # e # t, r))
             else if e = CHR ''u'' \<and> 4 \<le> length es \<and> list_all is_hex (take 4 es) then
               (case scan_string (drop 4 es) of
                  None \<Rightarrow> None
                | Some (t, r) \<Rightarrow> Some (c # e # take 4 es @ t, r))
             else None)
      else if (of_char c :: nat) < 32 then None
      else
        (case scan_string cs of
           None \<Rightarrow> None
         | Some (t, r) \<Rightarrow> Some (c # t, r)))"
  by pat_completeness auto
termination
  by (relation "measure length") auto

text \<open>
  A number: an optional minus, an integer part without a leading zero, an optional
  fraction, an optional exponent.
\<close>

definition scan_digits :: "string \<Rightarrow> (string \<times> string) option" where
  "scan_digits s =
     (if takeWhile is_digit s = [] then None
      else Some (takeWhile is_digit s, dropWhile is_digit s))"

definition scan_int :: "string \<Rightarrow> (string \<times> string) option" where
  "scan_int s =
     (case s of
        [] \<Rightarrow> None
      | c # cs \<Rightarrow> if c = CHR ''0'' then Some ([c], cs) else scan_digits s)"

definition scan_frac :: "string \<Rightarrow> (string \<times> string) option" where
  "scan_frac s =
     (case s of
        [] \<Rightarrow> Some ([], s)
      | c # cs \<Rightarrow>
          if c = CHR ''.'' then
            (case scan_digits cs of None \<Rightarrow> None | Some (ds, r) \<Rightarrow> Some (c # ds, r))
          else Some ([], s))"

definition scan_sign :: "string \<Rightarrow> string \<times> string" where
  "scan_sign s =
     (case s of
        [] \<Rightarrow> ([], s)
      | c # cs \<Rightarrow> if c = CHR ''+'' \<or> c = CHR ''-'' then ([c], cs) else ([], s))"

definition scan_exp :: "string \<Rightarrow> (string \<times> string) option" where
  "scan_exp s =
     (case s of
        [] \<Rightarrow> Some ([], s)
      | c # cs \<Rightarrow>
          if c = CHR ''e'' \<or> c = CHR ''E'' then
            (case scan_digits (snd (scan_sign cs)) of
               None \<Rightarrow> None
             | Some (ds, r) \<Rightarrow> Some (c # fst (scan_sign cs) @ ds, r))
          else Some ([], s))"

definition scan_number :: "string \<Rightarrow> (string \<times> string) option" where
  "scan_number s =
     (let (minus, s0) = (case s of [] \<Rightarrow> ([], s) | c # cs \<Rightarrow> if c = CHR ''-'' then ([c], cs) else ([], s))
      in case scan_int s0 of
           None \<Rightarrow> None
         | Some (i, s1) \<Rightarrow>
             (case scan_frac s1 of
                None \<Rightarrow> None
              | Some (f, s2) \<Rightarrow>
                  (case scan_exp s2 of
                     None \<Rightarrow> None
                   | Some (e, s3) \<Rightarrow> Some (minus @ i @ f @ e, s3))))"

text \<open>
  The values. The first argument bounds the depth of the calls; \<open>JSON_parse\<close> gives
  more than any text of its length needs (lemma \<open>JSON_parse_fuel\<close>).
  \<open>parse_elements\<close> reads the elements of an array after its bracket,
  \<open>parse_members\<close> the members of an object after its brace.
\<close>

fun parse_value :: "nat \<Rightarrow> string \<Rightarrow> (json \<times> string) option"
  and parse_elements :: "nat \<Rightarrow> string \<Rightarrow> (json list \<times> string) option"
  and parse_members :: "nat \<Rightarrow> string \<Rightarrow> ((string \<times> json) list \<times> string) option"
where
  "parse_value 0 s = None"
| "parse_value (Suc n) s =
     (case s of
        [] \<Rightarrow> None
      | c # cs \<Rightarrow>
          if c = CHR ''{'' then
            (case skip_ws cs of
               [] \<Rightarrow> None
             | d # ds \<Rightarrow>
                 if d = CHR ''}'' then Some (JObject [], ds)
                 else (case parse_members n (d # ds) of
                         None \<Rightarrow> None
                       | Some (ms, r) \<Rightarrow> Some (JObject ms, r)))
          else if c = CHR ''['' then
            (case skip_ws cs of
               [] \<Rightarrow> None
             | d # ds \<Rightarrow>
                 if d = CHR '']'' then Some (JArray [], ds)
                 else (case parse_elements n (d # ds) of
                         None \<Rightarrow> None
                       | Some (vs, r) \<Rightarrow> Some (JArray vs, r)))
          else if c = CHR 0x22 then
            (case scan_string cs of
               None \<Rightarrow> None
             | Some (t, r) \<Rightarrow> Some (JString t, r))
          else if take 4 s = ''true'' then Some (JBool True, drop 4 s)
          else if take 5 s = ''false'' then Some (JBool False, drop 5 s)
          else if take 4 s = ''null'' then Some (JNull, drop 4 s)
          else
            (case scan_number s of
               None \<Rightarrow> None
             | Some (t, r) \<Rightarrow> Some (JNumber t, r)))"
| "parse_elements 0 s = None"
| "parse_elements (Suc n) s =
     (case parse_value n (skip_ws s) of
        None \<Rightarrow> None
      | Some (v, r) \<Rightarrow>
          (case skip_ws r of
             [] \<Rightarrow> None
           | c # cs \<Rightarrow>
               if c = CHR '','' then
                 (case parse_elements n cs of
                    None \<Rightarrow> None
                  | Some (vs, r') \<Rightarrow> Some (v # vs, r'))
               else if c = CHR '']'' then Some ([v], cs)
               else None))"
| "parse_members 0 s = None"
| "parse_members (Suc n) s =
     (case skip_ws s of
        [] \<Rightarrow> None
      | q # qs \<Rightarrow>
          if q \<noteq> CHR 0x22 then None
          else
            (case scan_string qs of
               None \<Rightarrow> None
             | Some (k, r0) \<Rightarrow>
                 (case skip_ws r0 of
                    [] \<Rightarrow> None
                  | colon # r1 \<Rightarrow>
                      if colon \<noteq> CHR '':'' then None
                      else
                        (case parse_value n (skip_ws r1) of
                           None \<Rightarrow> None
                         | Some (v, r) \<Rightarrow>
                             (case skip_ws r of
                                [] \<Rightarrow> None
                              | c # cs \<Rightarrow>
                                  if c = CHR '','' then
                                    (case parse_members n cs of
                                       None \<Rightarrow> None
                                     | Some (ms, r') \<Rightarrow> Some ((k, v) # ms, r'))
                                  else if c = CHR ''}'' then Some ([(k, v)], cs)
                                  else None)))))"

definition JSON_parse :: "string \<Rightarrow> json option" where
  "JSON_parse s =
     (case parse_value (2 * length s + 2) (skip_ws s) of
        None \<Rightarrow> None
      | Some (v, r) \<Rightarrow> if skip_ws r = [] then Some v else None)"

section \<open>The model gateway: services/geminiService\<close>

subsection \<open>What the service sends and what comes back\<close>

datatype part = TextPart string | InlineData string string

datatype history_entry = Content role "part list"

text \<open>
  A response schema, by the shape it declares: the type, the items of an array, the
  properties of an object and which of them are required. The descriptions the source
  attaches to each property are prose for the remote model and are left out.
\<close>

datatype schema =
    SString
  | SArray schema
  | SObject "(string \<times> schema) list" "string list"

datatype aspectRatio = Ratio_1_1 | Ratio_16_9 | Ratio_9_16 | Ratio_4_3 | Ratio_3_4

text \<open>
  The calls of the SDK that reach the network, with what the service passes to each:
  \<^verbatim>\<open>ai.chats.create(...)\<close> followed by \<^verbatim>\<open>chat.sendMessageStream\<close> (model, system
  instruction, history, message), \<^verbatim>\<open>ai.models.generateContent\<close> (model, contents,
  and for a structured call the response schema with the MIME type
  \<^verbatim>\<open>application/json\<close>), \<^verbatim>\<open>ai.models.generateContentStream\<close> and
  \<^verbatim>\<open>ai.models.generateImages\<close>.
\<close>

datatype request =
    SendMessageStream string string "history_entry list" "part list"
  | GenerateContent string "part list" "(string \<times> schema) option"
  | GenerateContentStream string "part list"
  | GenerateImages string string int string aspectRatio

text \<open>
  A streamed response: its chunks in the order they arrive, and how the iteration ends,
  by completion (\<open>None\<close>) or by a throw. A chunk is a
  \<^verbatim>\<open>GenerateContentResponse\<close>, of which the panels read \<^verbatim>\<open>chunk.text\<close>: the text
  of the chunk, or undefined (\<open>None\<close>) for a chunk that carries no text part.
\<close>

datatype stream = Stream "string option list" "thrown option"

text \<open>
  The remote model, as the service sees it: each call either rejects or answers.
  \<^verbatim>\<open>response.text\<close> of a single-shot answer can be undefined (\<open>None\<close>).
\<close>

record remote =
  generateContent :: "request \<Rightarrow> thrown + string option"
  generateContentStream :: "request \<Rightarrow> thrown + stream"
  generateImages :: "request \<Rightarrow> thrown + string list"
  sendMessageStream :: "request \<Rightarrow> thrown + stream"

text \<open>
  What one operation of the service did: the requests it issued to the network, in
  order, and its result, a throw or a value.
\<close>

record 'a outcome =
  issued :: "request list"
  result :: "thrown + 'a"

text \<open>
  \<^verbatim>\<open>process.env.API_KEY\<close>, read once when the module loads: undefined (\<open>None\<close>)
  or a string. \<^verbatim>\<open>!apiKey\<close> holds for undefined and for the empty string.
\<close>

definition no_apiKey :: "string option \<Rightarrow> bool" where
  "no_apiKey apiKey = (case apiKey of None \<Rightarrow> True | Some k \<Rightarrow> \<not> truthy k)"

definition missing_key :: "'a outcome" where
  "missing_key = \<lparr>issued = [], result = Inl (Error ''API key is missing.'')\<rparr>"

fun js_join :: "string \<Rightarrow> string list \<Rightarrow> string" where
  "js_join sep [] = []"
| "js_join sep [x] = x"
| "js_join sep (x # y # ys) = x @ sep @ js_join sep (y # ys)"

definition buildHistory :: "message list \<Rightarrow> history_entry list" where
  "buildHistory messages = map (\<lambda>msg. Content (role msg) [TextPart (content msg)]) messages"

subsection \<open>The chat of the explainer\<close>

definition explainerSystemInstruction :: string where
  \<open>explainerSystemInstruction = ''You are a friendly and brilliant AI academic assistant called EduLearn. Your role is to explain any academic or technical concept the user asks about. Use simple terms, examples, and analogies. Be encouraging and helpful. Where appropriate, provide visual diagrams using ASCII or Mermaid syntax, real-world examples to make the concept tangible, and ready-to-use code snippets in a suitable programming language. Format your responses using Markdown for readability.''\<close>

definition notesContext :: "Note list \<Rightarrow> string" where
  "notesContext notes =
     js_join ''\<newline>\<newline>---\<newline>\<newline>''
       (map (\<lambda>n. ''Subject: '' @ subject n @ ''\<newline>Title: '' @ title n @ ''\<newline>Content:\<newline>'' @ note_content n) notes)"

definition finalMessage :: "string \<Rightarrow> Note list option \<Rightarrow> string" where
  \<open>finalMessage newMessage notes =
     (case notes of
        None \<Rightarrow> newMessage
      | Some ns \<Rightarrow>
          if 0 < length ns then
            ''Based on the following notes, please answer my question. If the answer is not in the notes, you can use your general knowledge but please mention that the information wasn'' @ [CHR 0x27] @ ''t in the provided material.\<newline>\<newline>[My Notes]\<newline>'' @ notesContext ns @ ''\<newline>\<newline>[My Question]\<newline>'' @ newMessage
          else newMessage)\<close>

definition generateExplanationStream ::
  "string option \<Rightarrow> remote \<Rightarrow> message list \<Rightarrow> string \<Rightarrow> (string \<times> string) option \<Rightarrow> Note list option \<Rightarrow> stream outcome" where
  "generateExplanationStream apiKey ai history newMessage file notes =
     (if no_apiKey apiKey then missing_key
      else
        (let parts = [TextPart (finalMessage newMessage notes)]
                     @ (case file of None \<Rightarrow> [] | Some (data, mimeType) \<Rightarrow> [InlineData data mimeType]);
             req = SendMessageStream ''gemini-2.5-flash'' explainerSystemInstruction (buildHistory history) parts
         in \<lparr>issued = [req], result = sendMessageStream ai req\<rparr>))"

subsection \<open>Single-shot text and images\<close>

definition summarizeText ::
  "string option \<Rightarrow> remote \<Rightarrow> string \<Rightarrow> (string \<times> string) option \<Rightarrow> string option outcome" where
  "summarizeText apiKey ai textToSummarize file =
     (if no_apiKey apiKey then missing_key
      else
        (let prompt = ''Please provide a concise summary of the following text/document. Focus on the key points and main ideas.'';
             parts = [TextPart prompt, TextPart textToSummarize]
                     @ (case file of None \<Rightarrow> [] | Some (data, mimeType) \<Rightarrow> [InlineData data mimeType]);
             req = GenerateContent ''gemini-2.5-flash'' parts None
         in \<lparr>issued = [req], result = generateContent ai req\<rparr>))"

definition generateImages_op ::
  "string option \<Rightarrow> remote \<Rightarrow> string \<Rightarrow> int \<Rightarrow> aspectRatio \<Rightarrow> string list outcome" where
  "generateImages_op apiKey ai prompt numberOfImages ratio =
     (if no_apiKey apiKey then missing_key
      else
        (let req = GenerateImages ''imagen-4.0-generate-001'' prompt numberOfImages ''image/png'' ratio
         in \<lparr>issued = [req], result = generateImages ai req\<rparr>))"

subsection \<open>Structured generation\<close>

text \<open>
  The \<^verbatim>\<open>try\<close> block the five structured operations share:
  \<^verbatim>\<open>JSON.parse(response.text.trim())\<close>, returned under a type assertion that does
  nothing at run time; whatever the block throws (an undefined text has no
  \<^verbatim>\<open>trim\<close>, \<^verbatim>\<open>JSON.parse\<close> rejects the text) is replaced by an error with the
  operation's own message.
\<close>

definition parse_response :: "string \<Rightarrow> string option \<Rightarrow> thrown + json" where
  "parse_response failure text =
     (case text of
        None \<Rightarrow> Inl (Error failure)
      | Some t \<Rightarrow>
          (case JSON_parse (js_trim t) of
             None \<Rightarrow> Inl (Error failure)
           | Some data \<Rightarrow> Inr data))"

definition structured ::
  "remote \<Rightarrow> string \<Rightarrow> schema \<Rightarrow> string \<Rightarrow> json outcome" where
  "structured ai prompt responseSchema failure =
     (let req = GenerateContent ''gemini-2.5-flash'' [TextPart prompt] (Some (''application/json'', responseSchema))
      in \<lparr>issued = [req],
          result = (case generateContent ai req of
                      Inl err \<Rightarrow> Inl err
                    | Inr text \<Rightarrow> parse_response failure text)\<rparr>)"

definition quizSchema :: schema where
  "quizSchema =
     SArray (SObject [(''question'', SString), (''options'', SArray SString), (''correctAnswer'', SString)]
                     [''question'', ''options'', ''correctAnswer''])"

definition generateQuiz :: "string option \<Rightarrow> remote \<Rightarrow> string \<Rightarrow> json outcome" where
  \<open>generateQuiz apiKey ai topic =
     (if no_apiKey apiKey then missing_key
      else structured ai
             (''Generate a 5-question multiple-choice quiz on the topic: "'' @ topic @ ''". Each question should have 4 options.'')
             quizSchema
             ''The AI returned an invalid quiz format. Please try again.'')\<close>

definition skillFeedbackSchema :: schema where
  "skillFeedbackSchema =
     SObject [(''badgeName'', SString), (''feedback'', SString), (''nextSteps'', SArray SString)]
             [''badgeName'', ''feedback'', ''nextSteps'']"

definition getSkillFeedback :: "string option \<Rightarrow> remote \<Rightarrow> skillGoal \<Rightarrow> json outcome" where
  \<open>getSkillFeedback apiKey ai goal =
     (if no_apiKey apiKey then missing_key
      else structured ai
             (''Act as a helpful and motivating student advisor. A student has set a skill goal for themselves.\<newline>    Goal Title: "'' @ goal_title goal @ ''"\<newline>    Goal Description: "'' @ description goal @ ''"\<newline>    \<newline>    Please provide a response in JSON format that includes a creative badge name for this achievement, some positive feedback, and three tangible next steps to continue their learning journey.'')
             skillFeedbackSchema
             ''The AI returned an invalid feedback format. Please try again.'')\<close>

definition projectIdeaSchema :: schema where
  "projectIdeaSchema =
     SArray (SObject [(''title'', SString), (''description'', SString),
                      (''keyFeatures'', SArray SString), (''techStack'', SArray SString),
                      (''datasetSource'', SString), (''architecture'', SString),
                      (''deploymentTips'', SString)]
                     [''title'', ''description'', ''keyFeatures'', ''techStack'',
                      ''datasetSource'', ''architecture'', ''deploymentTips''])"

definition getProjectIdeas :: "string option \<Rightarrow> remote \<Rightarrow> string \<Rightarrow> json outcome" where
  \<open>getProjectIdeas apiKey ai interests =
     (if no_apiKey apiKey then missing_key
      else structured ai
             (''I am a student looking for project ideas. My interests are: "'' @ interests @ ''". \<newline>    Please generate 3 creative and achievable project ideas for a mini or major project. \<newline>    For each idea, provide a title, a short description, 3-5 key features, a recommended tech stack, a suggested data source, a proposed architecture, and a deployment tip.'')
             projectIdeaSchema
             ''The AI returned an invalid project idea format. Please try again.'')\<close>

definition codeDebugSchema :: schema where
  "codeDebugSchema =
     SObject [(''language'', SString), (''errorAnalysis'', SString),
              (''suggestedFix'', SString), (''optimizedCode'', SString)]
             [''language'', ''errorAnalysis'', ''suggestedFix'', ''optimizedCode'']"

definition debugCode :: "string option \<Rightarrow> remote \<Rightarrow> string \<Rightarrow> json outcome" where
  \<open>debugCode apiKey ai code =
     (if no_apiKey apiKey then missing_key
      else structured ai
             (''Act as an expert code debugger. Analyze the following code snippet, identify any errors or potential issues, and provide a detailed analysis and a corrected version.\<newline>    \<newline>    Code to debug:\<newline>    ```\<newline>    '' @ code @ ''\<newline>    ```\<newline>    '')
             codeDebugSchema
             ''The AI returned an invalid format. Please try again.'')\<close>

definition websiteCodeSchema :: schema where
  "websiteCodeSchema =
     SObject [(''html'', SString), (''css'', SString), (''js'', SString)]
             [''html'', ''css'', ''js'']"

definition generateWebsiteCode :: "string option \<Rightarrow> remote \<Rightarrow> string \<Rightarrow> json outcome" where
  \<open>generateWebsiteCode apiKey ai prompt =
     (if no_apiKey apiKey then missing_key
      else structured ai
             (''Generate the complete HTML, CSS, and JavaScript code for a single-page website based on this description: "'' @ prompt @ ''". Provide the code in a single JSON object. The HTML should be a complete document, and the CSS should be self-contained. The JS should be placed in the body. Make the design modern and responsive.'')
             websiteCodeSchema
             ''The AI returned an invalid code format. Please try again.'')\<close>

subsection \<open>The interview chat and the code stream\<close>

definition interviewSystemInstruction :: string where
  \<open>interviewSystemInstruction = ''You are "EduLearn," a friendly but professional AI Interview Coach for students in AI and Machine Learning. Your goal is to help users prepare for technical interviews. You can operate in a few modes:\<newline>1.  **Mock Interview (Theory)**: Ask the user common ML/AI theory questions (e.g., "What is overfitting?", "Explain the difference between classification and regression."). Wait for their answer, then provide constructive feedback and the ideal answer.\<newline>2.  **Resume Review**: Ask the user to paste their resume text. Provide actionable feedback on its content, structure, and how well it showcases their skills for an AI/ML role.\<newline>3.  **Behavioral Questions**: Ask common behavioral questions relevant to tech roles.\<newline>\<newline>Start by greeting the user and asking them what they'' @ [CHR 0x27] @ ''d like to focus on today (e.g., theory, resume review, etc.). Conduct the conversation in a turn-by-turn manner.''\<close>

definition startInterviewChat ::
  "string option \<Rightarrow> remote \<Rightarrow> message list \<Rightarrow> string \<Rightarrow> stream outcome" where
  "startInterviewChat apiKey ai history newMessage =
     (if no_apiKey apiKey then missing_key
      else
        (let req = SendMessageStream ''gemini-2.5-flash'' interviewSystemInstruction (buildHistory history)
                     [TextPart newMessage]
         in \<lparr>issued = [req], result = sendMessageStream ai req\<rparr>))"

definition generateCodeSnippetStream ::
  "string option \<Rightarrow> remote \<Rightarrow> string \<Rightarrow> string \<Rightarrow> stream outcome" where
  \<open>generateCodeSnippetStream apiKey ai prompt language =
     (if no_apiKey apiKey then missing_key
      else
        (let fullPrompt = ''You are an expert code generator. Generate a code snippet in '' @ language @ '' for the following task: "'' @ prompt @ ''". Provide a brief explanation of how the code works. Format your response in Markdown, with the code inside a correctly labeled code block.'';
             req = GenerateContentStream ''gemini-2.5-flash'' [TextPart fullPrompt]
         in \<lparr>issued = [req], result = generateContentStream ai req\<rparr>))\<close>

subsection \<open>Every operation of the gateway\<close>

text \<open>The ten exported operations with their arguments, and what each returns.\<close>

datatype operation =
    GenerateExplanationStream "message list" string "(string \<times> string) option" "Note list option"
  | SummarizeText string "(string \<times> string) option"
  | GenerateQuiz string
  | GenerateImagesOp string int aspectRatio
  | GetSkillFeedback skillGoal
  | GetProjectIdeas string
  | DebugCode string
  | StartInterviewChat "message list" string
  | GenerateCodeSnippetStream string string
  | GenerateWebsiteCode string

datatype reply =
    Streamed stream
  | Text "string option"
  | Parsed json
  | Images "string list"

definition replying :: "('a \<Rightarrow> reply) \<Rightarrow> 'a outcome \<Rightarrow> reply outcome" where
  "replying wrap out = \<lparr>issued = issued out, result = map_sum (\<lambda>e. e) wrap (result out)\<rparr>"

fun perform :: "string option \<Rightarrow> remote \<Rightarrow> operation \<Rightarrow> reply outcome" where
  "perform apiKey ai (GenerateExplanationStream history newMessage file notes) =
     replying Streamed (generateExplanationStream apiKey ai history newMessage file notes)"
| "perform apiKey ai (SummarizeText textToSummarize file) =
     replying Text (summarizeText apiKey ai textToSummarize file)"
| "perform apiKey ai (GenerateQuiz topic) = replying Parsed (generateQuiz apiKey ai topic)"
| "perform apiKey ai (GenerateImagesOp prompt numberOfImages ratio) =
     replying Images (generateImages_op apiKey ai prompt numberOfImages ratio)"
| "perform apiKey ai (GetSkillFeedback goal) = replying Parsed (getSkillFeedback apiKey ai goal)"
| "perform apiKey ai (GetProjectIdeas interests) = replying Parsed (getProjectIdeas apiKey ai interests)"
| "perform apiKey ai (DebugCode code) = replying Parsed (debugCode apiKey ai code)"
| "perform apiKey ai (StartInterviewChat history newMessage) =
     replying Streamed (startInterviewChat apiKey ai history newMessage)"
| "perform apiKey ai (GenerateCodeSnippetStream prompt language) =
     replying Streamed (generateCodeSnippetStream apiKey ai prompt language)"
| "perform apiKey ai (GenerateWebsiteCode prompt) = replying Parsed (generateWebsiteCode apiKey ai prompt)"

section \<open>The streaming panels\<close>

subsection \<open>Message identifiers\<close>

text \<open>
  \<^verbatim>\<open>Date.now()\<close> is a reading of the clock, a natural number; a template literal
  prints it in decimal.
\<close>

definition digit_char :: "nat \<Rightarrow> char" where
  "digit_char d = char_of (48 + d)"

function decimal :: "nat \<Rightarrow> string" where
  "decimal n = (if n < 10 then [digit_char n] else decimal (n div 10) @ [digit_char (n mod 10)])"
  by pat_completeness auto
termination
  by (relation "measure (\<lambda>n. n)") auto

definition userMessage :: "nat \<Rightarrow> string \<Rightarrow> fileInfo option \<Rightarrow> message" where
  "userMessage now txt file = \<lparr>id = ''msg-'' @ decimal now, role = User, content = txt, fileInfo = file\<rparr>"

definition modelMessage :: "nat \<Rightarrow> message" where
  "modelMessage now = \<lparr>id = ''msg-'' @ decimal now @ ''-model'', role = Model, content = [], fileInfo = None\<rparr>"

subsection \<open>The state of a panel\<close>

text \<open>
  The state cells of the components, by \<^verbatim>\<open>useState\<close>: every panel has
  \<^verbatim>\<open>isLoading\<close>; the explainer adds its messages and the message being read aloud,
  the interview trainer also its input; the code generator has its own cells. A panel's
  state goes with the state of its speech hook, as a pair.
\<close>

record loading =
  isLoading :: bool

record chat = loading +
  messages :: "message list"
  speakingMessageId :: "string option"

record interview = chat +
  input :: string

record codeGenerator = loading +
  prompt :: string
  language :: string
  generatedCode :: string
  error :: string

text \<open>
  The input box of the explainer, a component of its own with its own speech hook. A
  selected \<^verbatim>\<open>File\<close> is what the code reads of it, its name and its type.
\<close>

record chatInput =
  input_text :: string
  selectedFile :: "fileInfo option"
  searchInNotes :: bool

subsection \<open>The \<^verbatim>\<open>try\<close> block of a chat panel\<close>

text \<open>
  \<^verbatim>\<open>prev.map(m => m.id === modelMessage.id ? { ...m, content: c } : m)\<close>
\<close>

definition set_content :: "string \<Rightarrow> string \<Rightarrow> message list \<Rightarrow> message list" where
  "set_content mid c prev = map (\<lambda>m. if id m = mid then m\<lparr>content := c\<rparr> else m) prev"

text \<open>
  What \<^verbatim>\<open>fullResponse += chunk.text\<close> appends: the text, and for an undefined
  \<^verbatim>\<open>chunk.text\<close> the nine characters JavaScript prints for \<^verbatim>\<open>undefined\<close>.
\<close>

definition chunk_text :: "string option \<Rightarrow> string" where
  "chunk_text chunk = (case chunk of None \<Rightarrow> ''undefined'' | Some t \<Rightarrow> t)"

text \<open>
  The body of the \<^verbatim>\<open>for await\<close> loop: \<^verbatim>\<open>chunk.text\<close> is appended to
  \<^verbatim>\<open>fullResponse\<close> and the whole of it is written into the message of the model.
  Every change of a state cell renders the host again, which runs the effect of its
  speech hook.
\<close>

definition stream_chunk ::
  "string \<Rightarrow> string option \<Rightarrow> string \<times> speech \<times> 'a chat_scheme \<Rightarrow> string \<times> speech \<times> 'a chat_scheme" where
  "stream_chunk mid chunk st =
     (case st of (fullResponse, w, p) \<Rightarrow>
        (fullResponse @ chunk_text chunk,
         rerender w,
         p\<lparr>messages := set_content mid (fullResponse @ chunk_text chunk) (messages p)\<rparr>))"

fun consume ::
  "string \<Rightarrow> string option list \<Rightarrow> string \<times> speech \<times> 'a chat_scheme \<Rightarrow> string \<times> speech \<times> 'a chat_scheme" where
  "consume mid [] st = st"
| "consume mid (chunk # rest) st = consume mid rest (stream_chunk mid chunk st)"

definition errorContent :: "thrown \<Rightarrow> string" where
  "errorContent err = (case err of Error m \<Rightarrow> m | NotAnError \<Rightarrow> ''Sorry, an unknown error occurred.'')"

definition stream_catch :: "string \<Rightarrow> thrown \<Rightarrow> speech \<times> 'a chat_scheme \<Rightarrow> speech \<times> 'a chat_scheme" where
  "stream_catch mid err s =
     (case s of (w, p) \<Rightarrow>
        (rerender w, p\<lparr>messages := set_content mid (''**Error:** '' @ errorContent err) (messages p)\<rparr>))"

definition stream_finally :: "speech \<times> 'a chat_scheme \<Rightarrow> speech \<times> 'a chat_scheme" where
  "stream_finally s = (case s of (w, p) \<Rightarrow> (rerender w, p\<lparr>isLoading := False\<rparr>))"

text \<open>
  The whole block, given what the call of the service came to: a throw of the call
  itself, or a stream that is consumed from an empty \<^verbatim>\<open>fullResponse\<close> and ends by
  completion or by a throw.
\<close>

definition try_stream :: "string \<Rightarrow> thrown + stream \<Rightarrow> speech \<times> 'a chat_scheme \<Rightarrow> speech \<times> 'a chat_scheme" where
  "try_stream mid called s =
     stream_finally
       (case called of
          Inl err \<Rightarrow> stream_catch mid err s
        | Inr (Stream chunks ending) \<Rightarrow>
            (case ending of
               None \<Rightarrow> snd (consume mid chunks ([], s))
             | Some err \<Rightarrow> stream_catch mid err (snd (consume mid chunks ([], s)))))"

text \<open>
  The pulsing dot both chat panels render after a message:
  \<^verbatim>\<open>isLoading && msg.role === 'model' && messages[messages.length - 1].id === msg.id\<close>.
  The expression is evaluated for a message of the list, so the list has a last message.
\<close>

definition typing_indicator :: "'a chat_scheme \<Rightarrow> message \<Rightarrow> bool" where
  "typing_indicator p msg =
     (isLoading p \<and> role msg = Model \<and> messages p \<noteq> [] \<and> id (last (messages p)) = id msg)"

subsection \<open>components/InterviewTrainer\<close>

definition InterviewTrainer_onTranscript :: "string \<Rightarrow> interview \<Rightarrow> interview" where
  "InterviewTrainer_onTranscript transcript p = p\<lparr>input := transcript\<rparr>"

text \<open>What the \<^verbatim>\<open>disabled\<close> attribute of the send button evaluates to.\<close>

definition InterviewTrainer_send_disabled :: "interview \<Rightarrow> bool" where
  "InterviewTrainer_send_disabled p = (isLoading p \<or> \<not> truthy (js_trim (input p)))"

text \<open>
  \<^verbatim>\<open>handleSendMessage\<close> from its guard to the call of the service: listening is
  stopped, speech cancelled, the two messages appended, the input cleared, loading set.
\<close>

definition InterviewTrainer_begin :: "nat \<Rightarrow> nat \<Rightarrow> speech \<times> interview \<Rightarrow> speech \<times> interview" where
  "InterviewTrainer_begin now1 now2 s =
     (case s of (w, p) \<Rightarrow>
        (rerender (cancelSpeech (if isListening w then stopListening w else w)),
         p\<lparr>messages := messages p @ [userMessage now1 (input p) None, modelMessage now2],
           input := [],
           isLoading := True\<rparr>))"

definition InterviewTrainer_handleSendMessage ::
  "string option \<Rightarrow> remote \<Rightarrow> nat \<Rightarrow> nat \<Rightarrow> speech \<times> interview \<Rightarrow> speech \<times> interview" where
  "InterviewTrainer_handleSendMessage apiKey ai now1 now2 s =
     (case s of (w, p) \<Rightarrow>
        if \<not> truthy (js_trim (input p)) \<or> isLoading p then s
        else try_stream (id (modelMessage now2))
               (result (startInterviewChat apiKey ai (messages p) (input p)))
               (InterviewTrainer_begin now1 now2 s))"

text \<open>
  The same function event by event, as the scheduler runs it. \<open>Send\<close> is a call of
  \<^verbatim>\<open>handleSendMessage\<close> up to its first \<^verbatim>\<open>await\<close>; \<open>Chunk\<close>, \<open>Complete\<close> and
  \<open>Fail\<close> are what the stream of a running call does next: a chunk, the end, a throw
  (of the call itself or of the iteration). \<open>SetInput\<close> is the user typing or the
  speech hook delivering a transcript. Beside the panel the state lists the calls that
  are running, each with the identifier of its model message and its \<^verbatim>\<open>fullResponse\<close>;
  the type does not bound their number.
\<close>

datatype chat_event =
    Send nat nat
  | SetInput string
  | Chunk nat "string option"
  | Complete nat
  | Fail nat thrown

definition without :: "nat \<Rightarrow> 'a list \<Rightarrow> 'a list" where
  "without k xs = take k xs @ drop (Suc k) xs"

fun interview_step ::
  "chat_event \<Rightarrow> (speech \<times> interview) \<times> (string \<times> string) list \<Rightarrow> (speech \<times> interview) \<times> (string \<times> string) list" where
  "interview_step (Send now1 now2) (s, running) =
     (if \<not> truthy (js_trim (input (snd s))) \<or> isLoading (snd s) then (s, running)
      else (InterviewTrainer_begin now1 now2 s, running @ [(id (modelMessage now2), [])]))"
| "interview_step (SetInput t) (s, running) =
     ((rerender (fst s), InterviewTrainer_onTranscript t (snd s)), running)"
| "interview_step (Chunk k chunk) (s, running) =
     (if k < length running then
        (case stream_chunk (fst (running ! k)) chunk (snd (running ! k), s) of
           (fullResponse, s') \<Rightarrow> (s', running[k := (fst (running ! k), fullResponse)]))
      else (s, running))"
| "interview_step (Complete k) (s, running) =
     (if k < length running then (stream_finally s, without k running) else (s, running))"
| "interview_step (Fail k err) (s, running) =
     (if k < length running
      then (stream_finally (stream_catch (fst (running ! k)) err s), without k running)
      else (s, running))"

fun interview_run ::
  "chat_event list \<Rightarrow> (speech \<times> interview) \<times> (string \<times> string) list \<Rightarrow> (speech \<times> interview) \<times> (string \<times> string) list" where
  "interview_run [] st = st"
| "interview_run (e # es) st = interview_run es (interview_step e st)"

text \<open>
  The events one call goes through after its \<open>Send\<close>, for what the call of the service
  came to, when it is the only call running.
\<close>

fun stream_events :: "thrown + stream \<Rightarrow> chat_event list" where
  "stream_events (Inl err) = [Fail 0 err]"
| "stream_events (Inr (Stream chunks None)) = map (Chunk 0) chunks @ [Complete 0]"
| "stream_events (Inr (Stream chunks (Some err))) = map (Chunk 0) chunks @ [Fail 0 err]"

subsection \<open>components/Explainer\<close>

definition ChatInput_onTranscript :: "string \<Rightarrow> chatInput \<Rightarrow> chatInput" where
  "ChatInput_onTranscript transcript c = c\<lparr>input_text := transcript\<rparr>"

definition ChatInput_send_disabled :: "bool \<Rightarrow> chatInput \<Rightarrow> bool" where
  "ChatInput_send_disabled loading c =
     (loading \<or> (\<not> truthy (js_trim (input_text c)) \<and> selectedFile c = None))"

text \<open>
  \<^verbatim>\<open>handleSend\<close> of the input box, given the \<^verbatim>\<open>isLoading\<close> property the explainer
  passes down: the new state of the box and of its speech hook, and the arguments of the
  call of \<^verbatim>\<open>onSendMessage\<close> when it makes one.
\<close>

definition ChatInput_handleSend ::
  "bool \<Rightarrow> speech \<times> chatInput \<Rightarrow> (speech \<times> chatInput) \<times> (string \<times> fileInfo option \<times> bool) option" where
  "ChatInput_handleSend loading s =
     (case s of (w, c) \<Rightarrow>
        if (truthy (js_trim (input_text c)) \<or> selectedFile c \<noteq> None) \<and> \<not> loading then
          ((rerender (if isListening w then stopListening w else w),
            c\<lparr>input_text := [], selectedFile := None\<rparr>),
           Some (input_text c, selectedFile c, searchInNotes c))
        else (s, None))"

text \<open>
  \<^verbatim>\<open>handleSendMessage\<close> of the explainer. \<open>readFileAsBase64\<close> stands for the helper
  of \<^verbatim>\<open>utils/fileUtils\<close>, which resolves to the file's content or rejects; \<open>notes\<close>
  are the notes in local storage. The read happens before the \<^verbatim>\<open>try\<close> block: when
  it rejects, the function ends there, with loading set.
\<close>

definition Explainer_handleSendMessage ::
  "string option \<Rightarrow> remote \<Rightarrow> (fileInfo \<Rightarrow> thrown + string) \<Rightarrow> Note list \<Rightarrow> nat \<Rightarrow> nat \<Rightarrow>
   string \<Rightarrow> fileInfo option \<Rightarrow> bool \<Rightarrow> speech \<times> chat \<Rightarrow> speech \<times> chat" where
  "Explainer_handleSendMessage apiKey ai readFileAsBase64 notes now1 now2 txt file searchNotes s =
     (case s of (w, p) \<Rightarrow>
        (let s1 = (rerender (cancelSpeech w), p\<lparr>isLoading := True\<rparr>);
             reading = (case file of
                          None \<Rightarrow> Inr None
                        | Some f \<Rightarrow>
                            (case readFileAsBase64 f of
                               Inl err \<Rightarrow> Inl err
                             | Inr base64Data \<Rightarrow> Inr (Some (base64Data, type f))))
         in case reading of
              Inl err \<Rightarrow> s1
            | Inr fileData \<Rightarrow>
                try_stream (id (modelMessage now2))
                  (result (generateExplanationStream apiKey ai (messages p) txt fileData
                             (if searchNotes then Some notes else None)))
                  (rerender (fst s1),
                   (snd s1)\<lparr>messages := messages (snd s1) @ [userMessage now1 txt file, modelMessage now2]\<rparr>)))"

subsection \<open>components/CodeGenerator\<close>

text \<open>
  The code generator keeps the streamed text in a cell of its own. Its second effect
  calls \<^verbatim>\<open>cancelSpeech\<close> in the cleanup of every render.
\<close>

definition CodeGenerator_rerender :: "speech \<Rightarrow> speech" where
  "CodeGenerator_rerender w = useSpeech_effect (cancelSpeech (useSpeech_cleanup w))"

definition generate_chunk ::
  "string option \<Rightarrow> string \<times> speech \<times> codeGenerator \<Rightarrow> string \<times> speech \<times> codeGenerator" where
  "generate_chunk chunk st =
     (case st of (fullResponse, w, g) \<Rightarrow>
        (fullResponse @ chunk_text chunk,
         CodeGenerator_rerender w,
         g\<lparr>generatedCode := fullResponse @ chunk_text chunk\<rparr>))"

fun generate_consume ::
  "string option list \<Rightarrow> string \<times> speech \<times> codeGenerator \<Rightarrow> string \<times> speech \<times> codeGenerator" where
  "generate_consume [] st = st"
| "generate_consume (chunk # rest) st = generate_consume rest (generate_chunk chunk st)"

definition generate_catch :: "thrown \<Rightarrow> speech \<times> codeGenerator \<Rightarrow> speech \<times> codeGenerator" where
  "generate_catch err s =
     (case s of (w, g) \<Rightarrow>
        (CodeGenerator_rerender w,
         g\<lparr>error := ''Failed to generate code: ''
                      @ (case err of Error m \<Rightarrow> m | NotAnError \<Rightarrow> ''An unknown error occurred.'')\<rparr>))"

definition CodeGenerator_handleGenerate ::
  "string option \<Rightarrow> remote \<Rightarrow> speech \<times> codeGenerator \<Rightarrow> speech \<times> codeGenerator" where
  "CodeGenerator_handleGenerate apiKey ai s =
     (case s of (w, g) \<Rightarrow>
        if \<not> truthy (js_trim (prompt g)) then
          (CodeGenerator_rerender w, g\<lparr>error := ''Please enter a description of the code you want.''\<rparr>)
        else
          (let s1 = (CodeGenerator_rerender (cancelSpeech w),
                     g\<lparr>isLoading := True, error := [], generatedCode := []\<rparr>);
               s2 = (case result (generateCodeSnippetStream apiKey ai (prompt g) (language g)) of
                       Inl err \<Rightarrow> generate_catch err s1
                     | Inr (Stream chunks ending) \<Rightarrow>
                         (case ending of
                            None \<Rightarrow> snd (generate_consume chunks ([], s1))
                          | Some err \<Rightarrow> generate_catch err (snd (generate_consume chunks ([], s1)))))
           in (CodeGenerator_rerender (fst s2), (snd s2)\<lparr>isLoading := False\<rparr>)))"

section \<open>Notions the properties are stated with\<close>

text \<open>
  The shape a response schema declares: a string, an array whose elements have the shape
  of the items, an object that has every required property and whose declared
  properties, where present, have their shapes (a later member of a JSON object
  overrides an earlier one of the same key). The service has no function that checks
  this; the predicate is here to say what the service does with a value that does not
  conform.
\<close>

fun conforms :: "schema \<Rightarrow> json \<Rightarrow> bool" where
  "conforms SString v = (case v of JString _ \<Rightarrow> True | _ \<Rightarrow> False)"
| "conforms (SArray items) v = (case v of JArray vs \<Rightarrow> list_all (conforms items) vs | _ \<Rightarrow> False)"
| "conforms (SObject properties required) v =
     (case v of
        JObject ms \<Rightarrow>
          list_all (\<lambda>k. map_of (rev ms) k \<noteq> None) required
          \<and> list_all (\<lambda>(k, sch). case map_of (rev ms) k of None \<Rightarrow> True | Some x \<Rightarrow> conforms sch x) properties
      | _ \<Rightarrow> False)"

text \<open>
  A remote model that answers every single-shot call with the same text and every
  streaming call with the same stream.
\<close>

definition answering :: "string option \<Rightarrow> stream \<Rightarrow> remote" where
  "answering txt s =
     \<lparr>generateContent = (\<lambda>_. Inr txt),
      generateContentStream = (\<lambda>_. Inr s),
      generateImages = (\<lambda>_. Inr []),
      sendMessageStream = (\<lambda>_. Inr s)\<rparr>"

text \<open>A remote model that rejects every call.\<close>

definition rejecting :: "thrown \<Rightarrow> remote" where
  "rejecting err =
     \<lparr>generateContent = (\<lambda>_. Inl err),
      generateContentStream = (\<lambda>_. Inl err),
      generateImages = (\<lambda>_. Inl err),
      sendMessageStream = (\<lambda>_. Inl err)\<rparr>"

text \<open>
  The sentence that opens the message when notes are supplied, up to the blank line
  before the block of the notes.
\<close>

definition notes_instruction :: string where
  \<open>notes_instruction = ''Based on the following notes, please answer my question. If the answer is not in the notes, you can use your general knowledge but please mention that the information wasn'' @ [CHR 0x27] @ ''t in the provided material.\<newline>\<newline>''\<close>

text \<open>
  In every state the hook reaches from its mount, an object that is capturing or
  stopping was created by a render in which \<^verbatim>\<open>isListening\<close> was false, and the object
  \<^verbatim>\<open>recognitionRef\<close> holds was created by the last render: \<^verbatim>\<open>startListening\<close>
  starts the object of a render that was not listening, and the render that follows
  replaces it in the reference.
\<close>

definition stale :: "speech \<Rightarrow> bool" where
  "stale w =
     ((\<forall>r\<in>set (recognitions w). capture r \<noteq> Inactive \<longrightarrow> \<not> seen_isListening r)
      \<and> (recognitions w \<noteq> [] \<longrightarrow>
            SpeechRecognition w \<and> seen_isListening (last (recognitions w)) = isListening w))"

section \<open>The parser needs no more fuel than it is given\<close>

lemma skip_ws_length: "length (skip_ws s) \<le> length s"
  by (simp add: skip_ws_def length_dropWhile_le)

lemma skip_ws_Cons_length: "skip_ws s = c # cs \<Longrightarrow> length cs < length s"
  using skip_ws_length [of s] by simp

lemma scan_string_length: "scan_string s = Some (t, r) \<Longrightarrow> length r < length s"
proof (induction s arbitrary: t r rule: scan_string.induct)
  case 1
  then show ?case by simp
next
  case (2 c cs)
  then show ?case
    by (fastforce split: if_splits list.splits option.splits)
qed

lemma scan_digits_length: "scan_digits s = Some (t, r) \<Longrightarrow> length r \<le> length s"
  by (auto simp: scan_digits_def length_dropWhile_le split: if_splits)

lemma scan_int_length: "scan_int s = Some (t, r) \<Longrightarrow> length r \<le> length s"
  by (auto simp: scan_int_def split: list.splits if_splits dest: scan_digits_length)

lemma scan_frac_length: "scan_frac s = Some (t, r) \<Longrightarrow> length r \<le> length s"
  by (auto simp: scan_frac_def split: list.splits if_splits option.splits dest: scan_digits_length)

lemma scan_sign_length: "length (snd (scan_sign s)) \<le> length s"
  by (auto simp: scan_sign_def split: list.splits)

lemma scan_exp_length: "scan_exp s = Some (t, r) \<Longrightarrow> length r \<le> length s"
  using scan_sign_length
  by (auto simp: scan_exp_def split: list.splits if_splits option.splits dest!: scan_digits_length)
     (meson le_SucI le_trans)+

lemma scan_number_length: "scan_number s = Some (t, r) \<Longrightarrow> length r \<le> length s"
proof -
  assume a: "scan_number s = Some (t, r)"
  obtain m s0 where m: "(case s of [] \<Rightarrow> ([], s) | c # cs \<Rightarrow> if c = CHR ''-'' then ([c], cs) else ([], s)) = (m, s0)"
    by fastforce
  then have l0: "length s0 \<le> length s"
    by (auto split: list.splits if_splits)
  from a m obtain i s1 f s2 e where
    "scan_int s0 = Some (i, s1)" "scan_frac s1 = Some (f, s2)" "scan_exp s2 = Some (e, r)"
    by (auto simp: scan_number_def split: option.splits)
  then have "length s1 \<le> length s0" "length s2 \<le> length s1" "length r \<le> length s2"
    by (auto dest: scan_int_length scan_frac_length scan_exp_length)
  with l0 show ?thesis by simp
qed

lemma parse_length:
  "(parse_value n s = Some (v, r) \<longrightarrow> length r \<le> length s)
 \<and> (parse_elements n s = Some (vs, r1) \<longrightarrow> length r1 \<le> length s)
 \<and> (parse_members n s = Some (ms, r2) \<longrightarrow> length r2 \<le> length s)"
proof (induction n arbitrary: s v r vs r1 ms r2)
  case 0
  then show ?case by simp
next
  case (Suc n)
  have V: "parse_value n s = Some (v, r) \<Longrightarrow> length r \<le> length s" for s v r
    using Suc by blast
  have E: "parse_elements n s = Some (vs, r) \<Longrightarrow> length r \<le> length s" for s vs r
    using Suc by blast
  have M: "parse_members n s = Some (ms, r) \<Longrightarrow> length r \<le> length s" for s ms r
    using Suc by blast
  have 1: "length r \<le> length s" if a: "parse_value (Suc n) s = Some (v, r)"
  proof (cases s)
    case Nil
    with a show ?thesis by simp
  next
    case (Cons c cs)
    show ?thesis
      using a Cons
      by (auto split: if_splits list.splits option.splits
               dest!: M E scan_string_length scan_number_length skip_ws_Cons_length)
  qed
  have 2: "length r1 \<le> length s" if a: "parse_elements (Suc n) s = Some (vs, r1)"
  proof -
    from a obtain v r where v: "parse_value n (skip_ws s) = Some (v, r)"
      by (auto split: option.splits)
    then have lr: "length r \<le> length s"
      using V skip_ws_length [of s] by (meson le_trans)
    from a v show ?thesis
      using lr
      by (auto split: if_splits list.splits option.splits dest!: E skip_ws_Cons_length)
  qed
  have 3: "length r2 \<le> length s" if a: "parse_members (Suc n) s = Some (ms, r2)"
  proof -
    from a obtain q qs where q: "skip_ws s = q # qs"
      by (auto split: list.splits)
    then have lq: "length qs < length s"
      by (rule skip_ws_Cons_length)
    from a q obtain k r0 where k: "scan_string qs = Some (k, r0)"
      by (auto split: if_splits option.splits)
    then have l0: "length r0 < length qs"
      by (rule scan_string_length)
    from a q k obtain colon r1' where c: "skip_ws r0 = colon # r1'"
      by (auto split: if_splits list.splits)
    then have l1: "length r1' < length r0"
      by (rule skip_ws_Cons_length)
    from a q k c obtain v r where v: "parse_value n (skip_ws r1') = Some (v, r)"
      by (auto split: if_splits option.splits)
    then have lr: "length r \<le> length r1'"
      using V skip_ws_length [of r1'] by (meson le_trans)
    from a q k c v show ?thesis
      using lq l0 l1 lr
      by (auto split: if_splits list.splits option.splits dest!: M skip_ws_Cons_length)
  qed
  from 1 2 3 show ?case by blast
qed

lemma parse_value_length: "parse_value n s = Some (v, r) \<Longrightarrow> length r \<le> length s"
  using parse_length by blast

lemma parse_saturated:
  "(2 * length s < n \<longrightarrow> parse_value (Suc n) s = parse_value n s)
 \<and> (2 * length s + 1 < n \<longrightarrow> parse_elements (Suc n) s = parse_elements n s)
 \<and> (2 * length s + 1 < n \<longrightarrow> parse_members (Suc n) s = parse_members n s)"
proof (induction n arbitrary: s)
  case 0
  then show ?case by simp
next
  case (Suc n)
  have V: "2 * length s < n \<Longrightarrow> parse_value (Suc n) s = parse_value n s" for s
    using Suc by blast
  have E: "2 * length s + 1 < n \<Longrightarrow> parse_elements (Suc n) s = parse_elements n s" for s
    using Suc by blast
  have M: "2 * length s + 1 < n \<Longrightarrow> parse_members (Suc n) s = parse_members n s" for s
    using Suc by blast
  have 1: "parse_value (Suc (Suc n)) s = parse_value (Suc n) s" if a: "2 * length s < Suc n"
  proof (cases s)
    case Nil
    then show ?thesis by simp
  next
    case (Cons c cs)
    have sub: "parse_members (Suc n) (d # ds) = parse_members n (d # ds)
             \<and> parse_elements (Suc n) (d # ds) = parse_elements n (d # ds)"
      if "skip_ws cs = d # ds" for d ds
    proof -
      from that have "length ds < length cs"
        by (rule skip_ws_Cons_length)
      with a Cons have "2 * length (d # ds) + 1 < n"
        by simp
      then show ?thesis
        using E M by blast
    qed
    show ?thesis
      unfolding Cons parse_value.simps(2) [of "Suc n" "c # cs"] parse_value.simps(2) [of n "c # cs"]
      using sub by (simp del: parse_value.simps parse_elements.simps parse_members.simps split: list.splits)
  qed
  have 2: "parse_elements (Suc (Suc n)) s = parse_elements (Suc n) s" if a: "2 * length s + 1 < Suc n"
  proof -
    have "2 * length (skip_ws s) < n"
      using a skip_ws_length [of s] by simp
    then have v: "parse_value (Suc n) (skip_ws s) = parse_value n (skip_ws s)"
      by (rule V)
    have sub: "parse_elements (Suc n) cs = parse_elements n cs"
      if "parse_value n (skip_ws s) = Some (v, r)" and "skip_ws r = c # cs" for v r c cs
    proof -
      from that(1) have "length r \<le> length (skip_ws s)"
        by (rule parse_value_length)
      moreover from that(2) have "length cs < length r"
        by (rule skip_ws_Cons_length)
      ultimately have "2 * length cs + 1 < n"
        using a skip_ws_length [of s] by simp
      then show ?thesis
        by (rule E)
    qed
    show ?thesis
      unfolding parse_elements.simps(2) [of "Suc n" s] parse_elements.simps(2) [of n s] v
      using sub by (simp del: parse_value.simps parse_elements.simps parse_members.simps split: option.splits list.splits)
  qed
  have 3: "parse_members (Suc (Suc n)) s = parse_members (Suc n) s" if a: "2 * length s + 1 < Suc n"
  proof -
    have val: "parse_value (Suc n) (skip_ws r1) = parse_value n (skip_ws r1)"
      if "skip_ws s = q # qs" and "scan_string qs = Some (k, r0)" and "skip_ws r0 = colon # r1"
      for q qs k r0 colon r1
    proof -
      have "length qs < length s" "length r0 < length qs" "length r1 < length r0"
        using that by (auto dest: skip_ws_Cons_length scan_string_length)
      then have "2 * length (skip_ws r1) < n"
        using a skip_ws_length [of r1] by simp
      then show ?thesis
        by (rule V)
    qed
    have sub: "parse_members (Suc n) cs = parse_members n cs"
      if "skip_ws s = q # qs" and "scan_string qs = Some (k, r0)" and "skip_ws r0 = colon # r1"
        and "parse_value n (skip_ws r1) = Some (v, r)" and "skip_ws r = c # cs"
      for q qs k r0 colon r1 v r c cs
    proof -
      have "length qs < length s" "length r0 < length qs" "length r1 < length r0"
        using that by (auto dest: skip_ws_Cons_length scan_string_length)
      moreover have "length r \<le> length (skip_ws r1)"
        using that(4) by (rule parse_value_length)
      moreover have "length cs < length r"
        using that(5) by (rule skip_ws_Cons_length)
      ultimately have "2 * length cs + 1 < n"
        using a skip_ws_length [of r1] by simp
      then show ?thesis
        by (rule M)
    qed
    show ?thesis
      unfolding parse_members.simps(2) [of "Suc n" s] parse_members.simps(2) [of n s]
      using val sub by (simp del: parse_value.simps parse_elements.simps parse_members.simps split: option.splits list.splits)
  qed
  from 1 2 3 show ?case by blast
qed

lemma parse_value_fuel:
  "2 * length s < n \<Longrightarrow> parse_value (n + k) s = parse_value n s"
proof (induction k)
  case 0
  then show ?case by simp
next
  case (Suc k)
  have "2 * length s < n + k"
    using Suc.prems by simp
  then have "parse_value (Suc (n + k)) s = parse_value (n + k) s"
    using parse_saturated by blast
  with Suc show ?case by simp
qed

lemma JSON_parse_fuel:
  assumes "2 * length s + 2 \<le> n"
  shows "JSON_parse s = (case parse_value n (skip_ws s) of
                           None \<Rightarrow> None
                         | Some (v, r) \<Rightarrow> if skip_ws r = [] then Some v else None)"
proof -
  from assms obtain k where n: "n = 2 * length s + 2 + k"
    using le_Suc_ex by blast
  have "2 * length (skip_ws s) < 2 * length s + 2"
    using skip_ws_length [of s] by simp
  then have "parse_value (2 * length s + 2 + k) (skip_ws s)
           = parse_value (2 * length s + 2) (skip_ws s)"
    by (rule parse_value_fuel)
  then show ?thesis
    unfolding n JSON_parse_def by (simp only:)
qed

section \<open>Properties of the model gateway\<close>

lemmas operation_defs = replying_def missing_key_def generateExplanationStream_def summarizeText_def
  generateQuiz_def generateImages_op_def getSkillFeedback_def getProjectIdeas_def debugCode_def
  startInterviewChat_def generateCodeSnippetStream_def generateWebsiteCode_def

text \<open>
  C6. Without a credential (\<^verbatim>\<open>API_KEY\<close> undefined or empty) every operation of the
  gateway, whatever its arguments and whatever the remote model would answer, throws the
  error \<^verbatim>\<open>API key is missing.\<close> and has issued no request.
\<close>

theorem no_credential_no_network:
  "no_apiKey apiKey \<Longrightarrow>
   perform apiKey ai operation = \<lparr>issued = [], result = Inl (Error ''API key is missing.'')\<rparr>"
  by (cases operation) (simp_all add: operation_defs)

theorem no_credential_no_network_witness:
  "no_apiKey None \<and> no_apiKey (Some [])
   \<and> perform None (answering (Some ''[]'') (Stream [Some ''a''] None)) (GenerateQuiz ''sets'')
     = \<lparr>issued = [], result = Inl (Error ''API key is missing.'')\<rparr>
   \<and> perform (Some []) (answering None (Stream [Some ''a''] None)) (GenerateImagesOp ''a cat'' 2 Ratio_1_1)
     = \<lparr>issued = [], result = Inl (Error ''API key is missing.'')\<rparr>"
proof -
  have a: "no_apiKey None" and b: "no_apiKey (Some [])"
    by (simp_all add: no_apiKey_def truthy_def)
  show ?thesis
    using a b
      no_credential_no_network [OF a, of "answering (Some ''[]'') (Stream [Some ''a''] None)" "GenerateQuiz ''sets''"]
      no_credential_no_network [OF b, of "answering None (Stream [Some ''a''] None)" "GenerateImagesOp ''a cat'' 2 Ratio_1_1"]
    by simp
qed

text \<open>With a credential every operation issues its one request.\<close>

lemma credential_one_request:
  "\<not> no_apiKey apiKey \<Longrightarrow> length (issued (perform apiKey ai operation)) = 1"
  by (cases operation) (simp_all add: operation_defs structured_def Let_def)

text \<open>
  C5. When notes are supplied (a non-empty list) with a question, the text the explainer
  sends to the model is the fixed sentence of instruction followed by exactly
  \<^verbatim>\<open>[My Notes]\n{notes}\n\n[My Question]\n{question}\<close>, with the formatted notes for
  \<^verbatim>\<open>{notes}\<close> and the new message for \<^verbatim>\<open>{question}\<close>; it is the first part of the one
  request, before the attached file if there is one.
\<close>

theorem notes_then_question:
  assumes "\<not> no_apiKey apiKey" and "ns \<noteq> []"
  shows "issued (generateExplanationStream apiKey ai history question file (Some ns)) =
           [SendMessageStream ''gemini-2.5-flash'' explainerSystemInstruction (buildHistory history)
              (TextPart (notes_instruction @ ''[My Notes]\<newline>'' @ notesContext ns
                         @ ''\<newline>\<newline>[My Question]\<newline>'' @ question)
               # (case file of None \<Rightarrow> [] | Some (data, mimeType) \<Rightarrow> [InlineData data mimeType]))]"
  using assms
  by (simp add: generateExplanationStream_def finalMessage_def notes_instruction_def Let_def)

theorem notes_then_question_witness:
  "\<not> no_apiKey (Some ''key'')
   \<and> issued (generateExplanationStream (Some ''key'') (answering None (Stream [] None)) [] ''What is a monad?'' None
        (Some [\<lparr>note_id = ''n1'', title = ''Monads'', subject = ''FP'', note_content = ''bind and return'',
                lastModified = ''today''\<rparr>]))
     = [SendMessageStream ''gemini-2.5-flash'' explainerSystemInstruction []
          [TextPart (notes_instruction
             @ ''[My Notes]\<newline>Subject: FP\<newline>Title: Monads\<newline>Content:\<newline>bind and return\<newline>\<newline>[My Question]\<newline>What is a monad?'')]]"
proof -
  have a: "\<not> no_apiKey (Some ''key'')"
    by (simp add: no_apiKey_def truthy_def)
  have b: "[\<lparr>note_id = ''n1'', title = ''Monads'', subject = ''FP'', note_content = ''bind and return'',
             lastModified = ''today''\<rparr>] \<noteq> []"
    by simp
  show ?thesis
    using a notes_then_question [OF a b, of "answering None (Stream [] None)" "[]" "''What is a monad?''" None]
    by (simp add: notesContext_def buildHistory_def)
qed

text \<open>
  C2, as amended. The \<^verbatim>\<open>try\<close> block of every structured operation fails with
  the operation's own invalid-format error when the response has no text or its trimmed
  text is not syntactically valid JSON, and then returns no value. A text that is valid
  JSON is returned as parsed, whatever its shape: nothing compares it with the schema.
\<close>

theorem invalid_syntax_is_format_error:
  assumes "\<not> no_apiKey apiKey" and "\<forall>req. generateContent ai req = Inr raw"
  shows "((raw = None \<or> (\<exists>t. raw = Some t \<and> JSON_parse (js_trim t) = None)) \<longrightarrow>
            result (generateQuiz apiKey ai topic)
              = Inl (Error ''The AI returned an invalid quiz format. Please try again.'')
          \<and> result (getSkillFeedback apiKey ai goal)
              = Inl (Error ''The AI returned an invalid feedback format. Please try again.'')
          \<and> result (getProjectIdeas apiKey ai interests)
              = Inl (Error ''The AI returned an invalid project idea format. Please try again.'')
          \<and> result (debugCode apiKey ai code)
              = Inl (Error ''The AI returned an invalid format. Please try again.'')
          \<and> result (generateWebsiteCode apiKey ai brief)
              = Inl (Error ''The AI returned an invalid code format. Please try again.''))
       \<and> (\<forall>t v. raw = Some t \<and> JSON_parse (js_trim t) = Some v \<longrightarrow>
            result (generateQuiz apiKey ai topic) = Inr v
          \<and> result (getSkillFeedback apiKey ai goal) = Inr v
          \<and> result (getProjectIdeas apiKey ai interests) = Inr v
          \<and> result (debugCode apiKey ai code) = Inr v
          \<and> result (generateWebsiteCode apiKey ai brief) = Inr v)"
  using assms
  by (auto simp: generateQuiz_def getSkillFeedback_def getProjectIdeas_def debugCode_def
        generateWebsiteCode_def structured_def parse_response_def Let_def)

theorem invalid_syntax_is_format_error_witness:
  "\<not> no_apiKey (Some ''key'')
   \<and> JSON_parse (js_trim ''not json'') = None
   \<and> result (generateQuiz (Some ''key'') (answering (Some ''not json'') (Stream [] None)) ''sets'')
     = Inl (Error ''The AI returned an invalid quiz format. Please try again.'')"
proof -
  have a: "\<not> no_apiKey (Some ''key'')"
    by (simp add: no_apiKey_def truthy_def)
  have b: "\<forall>req. generateContent (answering (Some ''not json'') (Stream [] None)) req = Inr (Some ''not json'')"
    by (simp add: answering_def)
  have c: "JSON_parse (js_trim ''not json'') = None"
    by code_simp
  show ?thesis
    using a c invalid_syntax_is_format_error [OF a b, of "''sets''"]
    by blast
qed

text \<open>
  C2 as stated fails: the text \<^verbatim>\<open>[{}]\<close> is valid JSON, an array with one
  object that has none of the required properties of a quiz question, and
  \<^verbatim>\<open>generateQuiz\<close> returns it; so does \<^verbatim>\<open>generateWebsiteCode\<close> with the number
  \<^verbatim>\<open>42\<close> where an object with three strings is declared.
\<close>

theorem shape_mismatch_is_returned:
  "result (generateQuiz (Some ''key'') (answering (Some ''[{}]'') (Stream [] None)) ''sets'')
     = Inr (JArray [JObject []])
   \<and> \<not> conforms quizSchema (JArray [JObject []])
   \<and> result (generateWebsiteCode (Some ''key'') (answering (Some '' 42 '') (Stream [] None)) ''a shop'')
     = Inr (JNumber ''42'')
   \<and> \<not> conforms websiteCodeSchema (JNumber ''42'')"
proof -
  have a: "JSON_parse (js_trim ''[{}]'') = Some (JArray [JObject []])"
    by code_simp
  have b: "JSON_parse (js_trim '' 42 '') = Some (JNumber ''42'')"
    by code_simp
  have c: "\<not> conforms quizSchema (JArray [JObject []])"
    by (simp add: quizSchema_def)
  have d: "\<not> conforms websiteCodeSchema (JNumber ''42'')"
    by (simp add: websiteCodeSchema_def)
  have k: "\<not> no_apiKey (Some ''key'')"
    by (simp add: no_apiKey_def truthy_def)
  show ?thesis
    using a b c d k
    by (simp add: generateQuiz_def generateWebsiteCode_def structured_def parse_response_def
          answering_def Let_def)
qed

section \<open>Properties of the streaming panels\<close>

lemma set_content_twice [simp]:
  "set_content mid c2 (set_content mid c1 ms) = set_content mid c2 ms"
  by (induction ms) (auto simp: set_content_def)

lemma set_content_last:
  "id m = mid \<Longrightarrow> last (set_content mid c (ms @ [m])) = m\<lparr>content := c\<rparr>"
  by (simp add: set_content_def)

lemma consume_fullResponse:
  "fst (consume mid chunks (full, s)) = full @ concat (map chunk_text chunks)"
  by (induction chunks arbitrary: full s) (auto simp: stream_chunk_def split: prod.splits)

lemma consume_messages:
  "messages (snd (snd (consume mid chunks (full, w, p)))) =
     (if chunks = [] then messages p else set_content mid (full @ concat (map chunk_text chunks)) (messages p))"
proof (induction chunks arbitrary: full w p)
  case Nil
  then show ?case by simp
next
  case (Cons chunk rest)
  show ?case
    by (simp add: stream_chunk_def Cons.IH)
qed

lemma consume_isLoading:
  "isLoading (snd (snd (consume mid chunks (full, w, p)))) = isLoading p"
  by (induction chunks arbitrary: full w p) (auto simp: stream_chunk_def)

lemma consume_last:
  assumes "messages p = ms @ [m]" and "id m = mid" and "content m = []"
  shows "last (messages (snd (snd (consume mid chunks ([], w, p))))) = m\<lparr>content := concat (map chunk_text chunks)\<rparr>"
proof (cases "chunks = []")
  case True
  with assms show ?thesis by simp
next
  case False
  with assms show ?thesis
    by (simp add: consume_messages set_content_last)
qed

lemma stream_finally_messages [simp]:
  "messages (snd (stream_finally s)) = messages (snd s)"
  by (cases s) (simp add: stream_finally_def)

lemma stream_finally_isLoading [simp]:
  "isLoading (snd (stream_finally s)) = False"
  by (cases s) (simp add: stream_finally_def)

lemma try_stream_completed:
  assumes "messages p = ms @ [m]" and "id m = mid" and "content m = []"
  shows "last (messages (snd (try_stream mid (Inr (Stream chunks None)) (w, p)))) = m\<lparr>content := concat (map chunk_text chunks)\<rparr>"
proof -
  have "last (messages (snd (snd (consume mid chunks ([], w, p))))) = m\<lparr>content := concat (map chunk_text chunks)\<rparr>"
    using assms by (rule consume_last)
  then show ?thesis
    by (simp add: try_stream_def)
qed

lemma stream_catch_last:
  assumes "messages p = ms @ [m]" and "id m = mid"
  shows "last (messages (snd (stream_catch mid err (w, p)))) = m\<lparr>content := ''**Error:** '' @ errorContent err\<rparr>"
  using assms by (simp add: stream_catch_def set_content_last)

lemma consume_shape:
  assumes "messages p = ms @ [m]" and "id m = mid"
  shows "\<exists>ms' c. messages (snd (snd (consume mid chunks (full, w, p)))) = ms' @ [m\<lparr>content := c\<rparr>]"
proof (cases "chunks = []")
  case True
  have "m = m\<lparr>content := content m\<rparr>" by simp
  with True assms(1) show ?thesis
    by (metis consume.simps(1) snd_conv)
next
  case False
  with assms show ?thesis
    by (auto simp: consume_messages set_content_def)
qed

lemma try_stream_failed:
  assumes "messages p = ms @ [m]" and "id m = mid"
    and "called = Inl err \<or> called = Inr (Stream chunks (Some err))"
  shows "last (messages (snd (try_stream mid called (w, p)))) = m\<lparr>content := ''**Error:** '' @ errorContent err\<rparr>"
proof -
  from assms(3) show ?thesis
  proof
    assume "called = Inl err"
    then show ?thesis
      using stream_catch_last [OF assms(1,2), of err w]
      by (simp add: try_stream_def)
  next
    assume c: "called = Inr (Stream chunks (Some err))"
    obtain full w' p' where k: "consume mid chunks ([], w, p) = (full, w', p')"
      by (cases "consume mid chunks ([], w, p)") auto
    from consume_shape [OF assms(1,2), of chunks "[]" w] k
    obtain ms' c' where "messages p' = ms' @ [m\<lparr>content := c'\<rparr>]"
      by auto
    moreover have "id (m\<lparr>content := c'\<rparr>) = mid"
      using assms(2) by simp
    ultimately have "last (messages (snd (stream_catch mid err (w', p'))))
        = m\<lparr>content := c'\<rparr>\<lparr>content := ''**Error:** '' @ errorContent err\<rparr>"
      by (rule stream_catch_last)
    then show ?thesis
      using c k by (simp add: try_stream_def)
  qed
qed

lemma try_stream_not_loading:
  "\<not> isLoading (snd (try_stream mid called s))"
  by (simp add: try_stream_def)

lemma modelMessage_fields [simp]:
  "content (modelMessage now) = []" "role (modelMessage now) = Model"
  by (simp_all add: modelMessage_def)

lemma InterviewTrainer_begin_messages:
  "messages (snd (InterviewTrainer_begin now1 now2 (w, p)))
     = (messages p @ [userMessage now1 (input p) None]) @ [modelMessage now2]"
  by (simp add: InterviewTrainer_begin_def)

lemma InterviewTrainer_sent:
  "truthy (js_trim (input p)) \<Longrightarrow> \<not> isLoading p \<Longrightarrow>
   InterviewTrainer_handleSendMessage apiKey ai now1 now2 (w, p)
     = try_stream (id (modelMessage now2))
         (result (startInterviewChat apiKey ai (messages p) (input p)))
         (InterviewTrainer_begin now1 now2 (w, p))"
  by (simp add: InterviewTrainer_handleSendMessage_def)

lemma InterviewTrainer_completed:
  assumes "truthy (js_trim (input p))" and "\<not> isLoading p"
    and "result (startInterviewChat apiKey ai (messages p) (input p)) = Inr (Stream chunks None)"
  shows "last (messages (snd (InterviewTrainer_handleSendMessage apiKey ai now1 now2 (w, p))))
           = (modelMessage now2)\<lparr>content := concat (map chunk_text chunks)\<rparr>"
proof -
  obtain w1 p1 where b: "InterviewTrainer_begin now1 now2 (w, p) = (w1, p1)"
    by (cases "InterviewTrainer_begin now1 now2 (w, p)") auto
  then have m: "messages p1 = (messages p @ [userMessage now1 (input p) None]) @ [modelMessage now2]"
    using InterviewTrainer_begin_messages [of now1 now2 w p] by simp
  have "last (messages (snd (try_stream (id (modelMessage now2)) (Inr (Stream chunks None)) (w1, p1))))
          = (modelMessage now2)\<lparr>content := concat (map chunk_text chunks)\<rparr>"
    using m by (rule try_stream_completed) simp_all
  then show ?thesis
    using assms b by (simp add: InterviewTrainer_sent)
qed

lemma InterviewTrainer_failed:
  assumes "truthy (js_trim (input p))" and "\<not> isLoading p"
    and "result (startInterviewChat apiKey ai (messages p) (input p)) = Inl err
       \<or> result (startInterviewChat apiKey ai (messages p) (input p)) = Inr (Stream chunks (Some err))"
  shows "last (messages (snd (InterviewTrainer_handleSendMessage apiKey ai now1 now2 (w, p))))
           = (modelMessage now2)\<lparr>content := ''**Error:** '' @ errorContent err\<rparr>"
proof -
  obtain w1 p1 where b: "InterviewTrainer_begin now1 now2 (w, p) = (w1, p1)"
    by (cases "InterviewTrainer_begin now1 now2 (w, p)") auto
  then have m: "messages p1 = (messages p @ [userMessage now1 (input p) None]) @ [modelMessage now2]"
    using InterviewTrainer_begin_messages [of now1 now2 w p] by simp
  have "last (messages (snd (try_stream (id (modelMessage now2))
                (result (startInterviewChat apiKey ai (messages p) (input p))) (w1, p1))))
          = (modelMessage now2)\<lparr>content := ''**Error:** '' @ errorContent err\<rparr>"
    using m _ assms(3) by (rule try_stream_failed) simp
  then show ?thesis
    using assms(1,2) b by (simp add: InterviewTrainer_sent)
qed

lemma Explainer_sent:
  assumes "file = None \<and> fileData = None
         \<or> (\<exists>f d. file = Some f \<and> readFileAsBase64 f = Inr d \<and> fileData = Some (d, type f))"
  shows "Explainer_handleSendMessage apiKey ai readFileAsBase64 notes now1 now2 txt file searchNotes (w, p)
     = try_stream (id (modelMessage now2))
         (result (generateExplanationStream apiKey ai (messages p) txt fileData
                    (if searchNotes then Some notes else None)))
         (rerender (rerender (cancelSpeech w)),
          p\<lparr>isLoading := True, messages := messages p @ [userMessage now1 txt file, modelMessage now2]\<rparr>)"
  using assms by (auto simp: Explainer_handleSendMessage_def Let_def)

lemma Explainer_completed:
  assumes "file = None \<and> fileData = None
         \<or> (\<exists>f d. file = Some f \<and> readFileAsBase64 f = Inr d \<and> fileData = Some (d, type f))"
    and "result (generateExplanationStream apiKey ai (messages p) txt fileData
                    (if searchNotes then Some notes else None)) = Inr (Stream chunks None)"
  shows "last (messages (snd (Explainer_handleSendMessage apiKey ai readFileAsBase64 notes now1 now2 txt
                                 file searchNotes (w, p))))
           = (modelMessage now2)\<lparr>content := concat (map chunk_text chunks)\<rparr>"
proof -
  have "last (messages (snd (try_stream (id (modelMessage now2)) (Inr (Stream chunks None))
          (rerender (rerender (cancelSpeech w)),
           p\<lparr>isLoading := True, messages := messages p @ [userMessage now1 txt file, modelMessage now2]\<rparr>))))
        = (modelMessage now2)\<lparr>content := concat (map chunk_text chunks)\<rparr>"
    by (rule try_stream_completed [where ms = "messages p @ [userMessage now1 txt file]"]) simp_all
  then show ?thesis
    using assms(2) by (simp add: Explainer_sent [OF assms(1)])
qed

lemma Explainer_failed:
  assumes "file = None \<and> fileData = None
         \<or> (\<exists>f d. file = Some f \<and> readFileAsBase64 f = Inr d \<and> fileData = Some (d, type f))"
    and "result (generateExplanationStream apiKey ai (messages p) txt fileData
                    (if searchNotes then Some notes else None)) = Inl err
       \<or> result (generateExplanationStream apiKey ai (messages p) txt fileData
                    (if searchNotes then Some notes else None)) = Inr (Stream chunks (Some err))"
  shows "last (messages (snd (Explainer_handleSendMessage apiKey ai readFileAsBase64 notes now1 now2 txt
                                 file searchNotes (w, p))))
           = (modelMessage now2)\<lparr>content := ''**Error:** '' @ errorContent err\<rparr>"
proof -
  have "last (messages (snd (try_stream (id (modelMessage now2))
          (result (generateExplanationStream apiKey ai (messages p) txt fileData
                    (if searchNotes then Some notes else None)))
          (rerender (rerender (cancelSpeech w)),
           p\<lparr>isLoading := True, messages := messages p @ [userMessage now1 txt file, modelMessage now2]\<rparr>))))
        = (modelMessage now2)\<lparr>content := ''**Error:** '' @ errorContent err\<rparr>"
    using _ _ assms(2)
    by (rule try_stream_failed [where ms = "messages p @ [userMessage now1 txt file]"]) simp_all
  then show ?thesis
    by (simp add: Explainer_sent [OF assms(1)])
qed

lemma generate_consume_code:
  "generatedCode (snd (snd (generate_consume chunks (full, w, g))))
     = (if chunks = [] then generatedCode g else full @ concat (map chunk_text chunks))"
proof (induction chunks arbitrary: full w g)
  case Nil
  then show ?case by simp
next
  case (Cons chunk rest)
  show ?case
    by (simp add: generate_chunk_def Cons.IH)
qed

lemma CodeGenerator_completed:
  assumes "truthy (js_trim (prompt g))"
    and "result (generateCodeSnippetStream apiKey ai (prompt g) (language g)) = Inr (Stream chunks None)"
  shows "generatedCode (snd (CodeGenerator_handleGenerate apiKey ai (w, g))) = concat (map chunk_text chunks)"
  using assms by (simp add: CodeGenerator_handleGenerate_def Let_def generate_consume_code)

subsection \<open>What a completed stream leaves\<close>

text \<open>
  When the stream of a send completes, the message of the model, which is the last
  message of the conversation, ends with what the loop appended chunk by chunk, in the
  order of arrival, as its content, in the interview trainer and in the explainer (once
  the attached file, if any, was read); in the code generator the generated code ends so.
\<close>

lemma streamed_content:
  "(truthy (js_trim (input p)) \<and> \<not> isLoading p
      \<and> result (startInterviewChat apiKey ai (messages p) (input p)) = Inr (Stream chunks None)
    \<longrightarrow> last (messages (snd (InterviewTrainer_handleSendMessage apiKey ai now1 now2 (w, p))))
          = (modelMessage now2)\<lparr>content := concat (map chunk_text chunks)\<rparr>)
 \<and> ((file = None \<and> fileData = None
       \<or> (\<exists>f d. file = Some f \<and> readFileAsBase64 f = Inr d \<and> fileData = Some (d, type f)))
      \<and> result (generateExplanationStream apiKey ai (messages q) txt fileData
                   (if searchNotes then Some notes else None)) = Inr (Stream chunks None)
    \<longrightarrow> last (messages (snd (Explainer_handleSendMessage apiKey ai readFileAsBase64 notes now1 now2 txt
                                file searchNotes (w, q))))
          = (modelMessage now2)\<lparr>content := concat (map chunk_text chunks)\<rparr>)
 \<and> (truthy (js_trim (prompt g))
      \<and> result (generateCodeSnippetStream apiKey ai (prompt g) (language g)) = Inr (Stream chunks None)
    \<longrightarrow> generatedCode (snd (CodeGenerator_handleGenerate apiKey ai (w, g)))
          = concat (map chunk_text chunks))"
proof -
  have 1: "last (messages (snd (InterviewTrainer_handleSendMessage apiKey ai now1 now2 (w, p))))
          = (modelMessage now2)\<lparr>content := concat (map chunk_text chunks)\<rparr>"
    if "truthy (js_trim (input p))" "\<not> isLoading p"
       "result (startInterviewChat apiKey ai (messages p) (input p)) = Inr (Stream chunks None)"
    using that by (rule InterviewTrainer_completed)
  have 2: "last (messages (snd (Explainer_handleSendMessage apiKey ai readFileAsBase64 notes now1 now2 txt
                                file searchNotes (w, q))))
          = (modelMessage now2)\<lparr>content := concat (map chunk_text chunks)\<rparr>"
    if "file = None \<and> fileData = None
       \<or> (\<exists>f d. file = Some f \<and> readFileAsBase64 f = Inr d \<and> fileData = Some (d, type f))"
       "result (generateExplanationStream apiKey ai (messages q) txt fileData
                   (if searchNotes then Some notes else None)) = Inr (Stream chunks None)"
    using that by (rule Explainer_completed)
  have 3: "generatedCode (snd (CodeGenerator_handleGenerate apiKey ai (w, g)))
          = concat (map chunk_text chunks)"
    if "truthy (js_trim (prompt g))"
       "result (generateCodeSnippetStream apiKey ai (prompt g) (language g)) = Inr (Stream chunks None)"
    using that by (rule CodeGenerator_completed)
  from 1 2 3 show ?thesis
    by blast
qed

text \<open>
  Where every chunk carries a text, what the loop appended is the concatenation of the
  texts.
\<close>

lemma chunk_text_texts: "concat (map chunk_text (map Some texts)) = concat texts"
  by (induction texts) (simp_all add: chunk_text_def)

lemma streamed_texts_are_concatenated:
  "(truthy (js_trim (input p)) \<and> \<not> isLoading p
      \<and> result (startInterviewChat apiKey ai (messages p) (input p)) = Inr (Stream (map Some texts) None)
    \<longrightarrow> last (messages (snd (InterviewTrainer_handleSendMessage apiKey ai now1 now2 (w, p))))
          = (modelMessage now2)\<lparr>content := concat texts\<rparr>)
 \<and> ((file = None \<and> fileData = None
       \<or> (\<exists>f d. file = Some f \<and> readFileAsBase64 f = Inr d \<and> fileData = Some (d, type f)))
      \<and> result (generateExplanationStream apiKey ai (messages q) txt fileData
                   (if searchNotes then Some notes else None)) = Inr (Stream (map Some texts) None)
    \<longrightarrow> last (messages (snd (Explainer_handleSendMessage apiKey ai readFileAsBase64 notes now1 now2 txt
                                file searchNotes (w, q))))
          = (modelMessage now2)\<lparr>content := concat texts\<rparr>)
 \<and> (truthy (js_trim (prompt g))
      \<and> result (generateCodeSnippetStream apiKey ai (prompt g) (language g))
          = Inr (Stream (map Some texts) None)
    \<longrightarrow> generatedCode (snd (CodeGenerator_handleGenerate apiKey ai (w, g))) = concat texts)"
  using streamed_content [where chunks = "map Some texts"]
  unfolding chunk_text_texts
  by blast

lemma streamed_texts_example:
  "content (last (messages (snd (Explainer_handleSendMessage (Some ''key'')
         (answering None (Stream [Some ''Recur'', Some ''sion is'', Some ''...''] None)) (\<lambda>f. Inr []) [] 1 2
         ''Explain recursion'' None False
         (mounted True True, \<lparr>isLoading = False, messages = [], speakingMessageId = None\<rparr>)))))
     = ''Recursion is...''"
proof -
  let ?ai = "answering None (Stream [Some ''Recur'', Some ''sion is'', Some ''...''] None)"
  let ?q = "\<lparr>isLoading = False, messages = [], speakingMessageId = None\<rparr>"
  have b: "result (generateExplanationStream (Some ''key'') ?ai (messages ?q)
              ''Explain recursion'' None (if False then Some [] else None))
           = Inr (Stream [Some ''Recur'', Some ''sion is'', Some ''...''] None)"
    by (simp add: generateExplanationStream_def no_apiKey_def truthy_def answering_def Let_def)
  have "last (messages (snd (Explainer_handleSendMessage (Some ''key'') ?ai (\<lambda>f. Inr []) [] 1 2
                 ''Explain recursion'' None False (mounted True True, ?q))))
          = (modelMessage 2)\<lparr>content := concat (map chunk_text [Some ''Recur'', Some ''sion is'', Some ''...''])\<rparr>"
    using b by (intro Explainer_completed [where fileData = None]) simp_all
  then show ?thesis
    by (simp add: chunk_text_def)
qed

text \<open>
  C1 fails in the code. The claim is that the content after a completed stream is the
  concatenation of the text fragments that were emitted. A stream whose second chunk
  carries no text part emits the one fragment \<^verbatim>\<open>Hi\<close>; the loop appends
  \<^verbatim>\<open>chunk.text\<close> of that chunk all the same, and the message of the model (in the
  interview trainer and in the explainer) and the generated code (in the code
  generator) end as \<^verbatim>\<open>Hiundefined\<close>.
\<close>

theorem textless_chunk_appends_undefined:
  "content (last (messages (snd (InterviewTrainer_handleSendMessage (Some ''key'')
         (answering None (Stream [Some ''Hi'', None] None)) 1 2
         (mounted True True,
          \<lparr>isLoading = False, messages = [], speakingMessageId = None, input = ''Say hi''\<rparr>)))))
     = ''Hiundefined''
   \<and> content (last (messages (snd (Explainer_handleSendMessage (Some ''key'')
         (answering None (Stream [Some ''Hi'', None] None)) (\<lambda>f. Inr []) [] 1 2
         ''Say hi'' None False
         (mounted True True, \<lparr>isLoading = False, messages = [], speakingMessageId = None\<rparr>)))))
     = ''Hiundefined''
   \<and> generatedCode (snd (CodeGenerator_handleGenerate (Some ''key'')
         (answering None (Stream [Some ''Hi'', None] None))
         (mounted True True,
          \<lparr>isLoading = False, prompt = ''Say hi'', language = ''python'',
           generatedCode = [], error = []\<rparr>)))
     = ''Hiundefined''"
proof -
  let ?ai = "answering None (Stream [Some ''Hi'', None] None)"
  let ?p = "\<lparr>isLoading = False, messages = [], speakingMessageId = None, input = ''Say hi''\<rparr>"
  let ?q = "\<lparr>isLoading = False, messages = [], speakingMessageId = None\<rparr>"
  let ?g = "\<lparr>isLoading = False, prompt = ''Say hi'', language = ''python'',
            generatedCode = [], error = []\<rparr>"
  have t: "truthy (js_trim (input ?p))" "truthy (js_trim (prompt ?g))"
    by (simp_all add: truthy_def js_trim_def is_js_space_def)
  have l: "\<not> isLoading ?p"
    by simp
  have a: "result (startInterviewChat (Some ''key'') ?ai (messages ?p) (input ?p))
           = Inr (Stream [Some ''Hi'', None] None)"
    by (simp add: startInterviewChat_def no_apiKey_def truthy_def answering_def Let_def)
  have b: "result (generateExplanationStream (Some ''key'') ?ai (messages ?q)
              ''Say hi'' None (if False then Some [] else None))
           = Inr (Stream [Some ''Hi'', None] None)"
    by (simp add: generateExplanationStream_def no_apiKey_def truthy_def answering_def Let_def)
  have c: "result (generateCodeSnippetStream (Some ''key'') ?ai (prompt ?g) (language ?g))
           = Inr (Stream [Some ''Hi'', None] None)"
    by (simp add: generateCodeSnippetStream_def no_apiKey_def truthy_def answering_def Let_def)
  have 1: "last (messages (snd (InterviewTrainer_handleSendMessage (Some ''key'') ?ai 1 2 (mounted True True, ?p))))
          = (modelMessage 2)\<lparr>content := concat (map chunk_text [Some ''Hi'', None])\<rparr>"
    using t(1) l a by (rule InterviewTrainer_completed)
  have 2: "last (messages (snd (Explainer_handleSendMessage (Some ''key'') ?ai (\<lambda>f. Inr []) [] 1 2
                 ''Say hi'' None False (mounted True True, ?q))))
          = (modelMessage 2)\<lparr>content := concat (map chunk_text [Some ''Hi'', None])\<rparr>"
    using b by (intro Explainer_completed [where fileData = None]) simp_all
  have 3: "generatedCode (snd (CodeGenerator_handleGenerate (Some ''key'') ?ai (mounted True True, ?g)))
          = concat (map chunk_text [Some ''Hi'', None])"
    using t(2) c by (rule CodeGenerator_completed)
  from 1 2 3 show ?thesis
    by (simp add: chunk_text_def)
qed

text \<open>
  So the content the explainer shows for that stream is not the one fragment that was
  emitted.
\<close>

theorem textless_chunk_appends_undefined_witness:
  "content (last (messages (snd (Explainer_handleSendMessage (Some ''key'')
         (answering None (Stream [Some ''Hi'', None] None)) (\<lambda>f. Inr []) [] 1 2
         ''Say hi'' None False
         (mounted True True, \<lparr>isLoading = False, messages = [], speakingMessageId = None\<rparr>)))))
     \<noteq> concat [''Hi'']"
  using textless_chunk_appends_undefined by simp

subsection \<open>What a failed stream leaves\<close>

text \<open>
  When the call of the service throws, or the iteration of its stream throws after any
  number of chunks, the \<^verbatim>\<open>catch\<close> block leaves the message of the model, the last
  of the conversation, with \<^verbatim>\<open>**Error:**\<close> and the message of the error as its
  content, whatever was streamed into it before, and \<^verbatim>\<open>finally\<close> turns loading off.
  In the explainer this is what happens once the attached file, if any, was read.
\<close>

lemma catch_writes_error:
  "(truthy (js_trim (input p)) \<and> \<not> isLoading p
      \<and> (result (startInterviewChat apiKey ai (messages p) (input p)) = Inl err
         \<or> result (startInterviewChat apiKey ai (messages p) (input p)) = Inr (Stream chunks (Some err)))
    \<longrightarrow> last (messages (snd (InterviewTrainer_handleSendMessage apiKey ai now1 now2 (w, p))))
          = (modelMessage now2)\<lparr>content := ''**Error:** '' @ errorContent err\<rparr>)
 \<and> (truthy (js_trim (input p)) \<and> \<not> isLoading p
    \<longrightarrow> \<not> isLoading (snd (InterviewTrainer_handleSendMessage apiKey ai now1 now2 (w, p))))
 \<and> ((file = None \<and> fileData = None
       \<or> (\<exists>f d. file = Some f \<and> readFileAsBase64 f = Inr d \<and> fileData = Some (d, type f)))
      \<and> (result (generateExplanationStream apiKey ai (messages q) txt fileData
                    (if searchNotes then Some notes else None)) = Inl err
         \<or> result (generateExplanationStream apiKey ai (messages q) txt fileData
                    (if searchNotes then Some notes else None)) = Inr (Stream chunks (Some err)))
    \<longrightarrow> last (messages (snd (Explainer_handleSendMessage apiKey ai readFileAsBase64 notes now1 now2 txt
                                file searchNotes (w, q))))
          = (modelMessage now2)\<lparr>content := ''**Error:** '' @ errorContent err\<rparr>)
 \<and> ((file = None \<and> fileData = None
       \<or> (\<exists>f d. file = Some f \<and> readFileAsBase64 f = Inr d \<and> fileData = Some (d, type f)))
    \<longrightarrow> \<not> isLoading (snd (Explainer_handleSendMessage apiKey ai readFileAsBase64 notes now1 now2 txt
                                file searchNotes (w, q))))"
proof -
  have 1: "last (messages (snd (InterviewTrainer_handleSendMessage apiKey ai now1 now2 (w, p))))
          = (modelMessage now2)\<lparr>content := ''**Error:** '' @ errorContent err\<rparr>"
    if "truthy (js_trim (input p))" "\<not> isLoading p"
       "result (startInterviewChat apiKey ai (messages p) (input p)) = Inl err
         \<or> result (startInterviewChat apiKey ai (messages p) (input p)) = Inr (Stream chunks (Some err))"
    using that by (rule InterviewTrainer_failed)
  have 2: "\<not> isLoading (snd (InterviewTrainer_handleSendMessage apiKey ai now1 now2 (w, p)))"
    if "truthy (js_trim (input p))" "\<not> isLoading p"
    using that by (simp add: InterviewTrainer_sent try_stream_not_loading)
  have 3: "last (messages (snd (Explainer_handleSendMessage apiKey ai readFileAsBase64 notes now1 now2 txt
                                file searchNotes (w, q))))
          = (modelMessage now2)\<lparr>content := ''**Error:** '' @ errorContent err\<rparr>"
    if "file = None \<and> fileData = None
       \<or> (\<exists>f d. file = Some f \<and> readFileAsBase64 f = Inr d \<and> fileData = Some (d, type f))"
       "result (generateExplanationStream apiKey ai (messages q) txt fileData
                    (if searchNotes then Some notes else None)) = Inl err
         \<or> result (generateExplanationStream apiKey ai (messages q) txt fileData
                    (if searchNotes then Some notes else None)) = Inr (Stream chunks (Some err))"
    using that by (rule Explainer_failed)
  have 4: "\<not> isLoading (snd (Explainer_handleSendMessage apiKey ai readFileAsBase64 notes now1 now2 txt
                                file searchNotes (w, q)))"
    if "file = None \<and> fileData = None
       \<or> (\<exists>f d. file = Some f \<and> readFileAsBase64 f = Inr d \<and> fileData = Some (d, type f))"
    by (simp add: Explainer_sent [OF that] try_stream_not_loading)
  from 1 2 3 4 show ?thesis
    by blast
qed

lemma catch_writes_error_example:
  "content (last (messages (snd (InterviewTrainer_handleSendMessage None (rejecting NotAnError) 1 2
        (mounted True True, \<lparr>isLoading = False, messages = [], speakingMessageId = None, input = ''hello''\<rparr>)))))
     = ''**Error:** API key is missing.''
   \<and> content (last (messages (snd (Explainer_handleSendMessage (Some ''key'')
        (answering None (Stream [Some ''Recur'', Some ''sion''] (Some (Error ''connection lost''))))
        (\<lambda>f. Inr []) [] 1 2 ''Explain recursion'' None False
        (mounted True True, \<lparr>isLoading = False, messages = [], speakingMessageId = None\<rparr>)))))
     = ''**Error:** connection lost''"
proof -
  let ?p = "\<lparr>isLoading = False, messages = [], speakingMessageId = None, input = ''hello''\<rparr>"
  let ?q = "\<lparr>isLoading = False, messages = [], speakingMessageId = None\<rparr>"
  let ?ai = "answering None (Stream [Some ''Recur'', Some ''sion''] (Some (Error ''connection lost'')))"
  have a: "truthy (js_trim (input ?p))"
    by (simp add: truthy_def js_trim_def is_js_space_def)
  have b: "\<not> isLoading ?p"
    by simp
  have c: "result (startInterviewChat None (rejecting NotAnError) (messages ?p) (input ?p))
             = Inl (Error ''API key is missing.'')"
    by (simp add: startInterviewChat_def no_apiKey_def missing_key_def)
  have d: "result (generateExplanationStream (Some ''key'') ?ai (messages ?q)
              ''Explain recursion'' None (if False then Some [] else None))
           = Inr (Stream [Some ''Recur'', Some ''sion''] (Some (Error ''connection lost'')))"
    by (simp add: generateExplanationStream_def no_apiKey_def truthy_def answering_def Let_def)
  have 1: "last (messages (snd (InterviewTrainer_handleSendMessage None (rejecting NotAnError) 1 2
                               (mounted True True, ?p))))
          = (modelMessage 2)\<lparr>content := ''**Error:** '' @ errorContent (Error ''API key is missing.'')\<rparr>"
    using a b c by (intro InterviewTrainer_failed) simp_all
  have 2: "last (messages (snd (Explainer_handleSendMessage (Some ''key'') ?ai (\<lambda>f. Inr []) [] 1 2
                 ''Explain recursion'' None False (mounted True True, ?q))))
          = (modelMessage 2)\<lparr>content := ''**Error:** '' @ errorContent (Error ''connection lost'')\<rparr>"
    using d by (intro Explainer_failed [where fileData = None]) simp_all
  from 1 2 show ?thesis
    by (simp add: errorContent_def)
qed

text \<open>
  The read of the attached file stands before the \<^verbatim>\<open>try\<close> block of the explainer.
  When it rejects, neither \<^verbatim>\<open>catch\<close> nor \<^verbatim>\<open>finally\<close> runs: speech is cancelled,
  loading is on, and nothing else has changed.
\<close>

lemma Explainer_rejected_read:
  assumes "file = Some f" and "readFileAsBase64 f = Inl err"
  shows "Explainer_handleSendMessage apiKey ai readFileAsBase64 notes now1 now2 txt file searchNotes (w, p)
           = (rerender (cancelSpeech w), p\<lparr>isLoading := True\<rparr>)"
  using assms by (simp add: Explainer_handleSendMessage_def Let_def)

text \<open>
  C7 fails in the code. The claim is that every submitted request ends in a visible
  terminal state, never with a stuck indicator. In the explainer, after one exchange,
  the user sends a question with a file whose read rejects: the conversation is as it
  was, no error is written anywhere, loading stays on, the pulsing dot shows after the
  old answer of the model, and the send button of the input box is disabled, the new
  text notwithstanding. No later event of this call turns loading off.
\<close>

theorem rejected_file_read_stays_loading:
  "snd (Explainer_handleSendMessage (Some ''key'') (answering None (Stream [Some ''ok''] None))
          (\<lambda>f. Inl (Error ''unreadable'')) [] 3 4 ''Explain this file''
          (Some \<lparr>name = ''notes.pdf'', type = ''application/pdf''\<rparr>) False
          (mounted True True,
           \<lparr>isLoading = False,
            messages = [userMessage 1 ''Hi'' None, (modelMessage 2)\<lparr>content := ''Hello''\<rparr>],
            speakingMessageId = None\<rparr>))
     = \<lparr>isLoading = True,
        messages = [userMessage 1 ''Hi'' None, (modelMessage 2)\<lparr>content := ''Hello''\<rparr>],
        speakingMessageId = None\<rparr>
   \<and> typing_indicator
        (snd (Explainer_handleSendMessage (Some ''key'') (answering None (Stream [Some ''ok''] None))
          (\<lambda>f. Inl (Error ''unreadable'')) [] 3 4 ''Explain this file''
          (Some \<lparr>name = ''notes.pdf'', type = ''application/pdf''\<rparr>) False
          (mounted True True,
           \<lparr>isLoading = False,
            messages = [userMessage 1 ''Hi'' None, (modelMessage 2)\<lparr>content := ''Hello''\<rparr>],
            speakingMessageId = None\<rparr>)))
        ((modelMessage 2)\<lparr>content := ''Hello''\<rparr>)
   \<and> ChatInput_send_disabled
        (isLoading (snd (Explainer_handleSendMessage (Some ''key'') (answering None (Stream [Some ''ok''] None))
          (\<lambda>f. Inl (Error ''unreadable'')) [] 3 4 ''Explain this file''
          (Some \<lparr>name = ''notes.pdf'', type = ''application/pdf''\<rparr>) False
          (mounted True True,
           \<lparr>isLoading = False,
            messages = [userMessage 1 ''Hi'' None, (modelMessage 2)\<lparr>content := ''Hello''\<rparr>],
            speakingMessageId = None\<rparr>))))
        \<lparr>input_text = ''Try again'', selectedFile = None, searchInNotes = False\<rparr>"
  by (simp add: Explainer_handleSendMessage_def Let_def typing_indicator_def
        ChatInput_send_disabled_def modelMessage_def)

text \<open>
  So after that send loading is on and the last message is still the old answer: no
  error message was written.
\<close>

theorem rejected_file_read_stays_loading_witness:
  "isLoading (snd (Explainer_handleSendMessage (Some ''key'') (answering None (Stream [Some ''ok''] None))
          (\<lambda>f. Inl (Error ''unreadable'')) [] 3 4 ''Explain this file''
          (Some \<lparr>name = ''notes.pdf'', type = ''application/pdf''\<rparr>) False
          (mounted True True,
           \<lparr>isLoading = False,
            messages = [userMessage 1 ''Hi'' None, (modelMessage 2)\<lparr>content := ''Hello''\<rparr>],
            speakingMessageId = None\<rparr>)))
   \<and> content (last (messages (snd (Explainer_handleSendMessage (Some ''key'')
          (answering None (Stream [Some ''ok''] None))
          (\<lambda>f. Inl (Error ''unreadable'')) [] 3 4 ''Explain this file''
          (Some \<lparr>name = ''notes.pdf'', type = ''application/pdf''\<rparr>) False
          (mounted True True,
           \<lparr>isLoading = False,
            messages = [userMessage 1 ''Hi'' None, (modelMessage 2)\<lparr>content := ''Hello''\<rparr>],
            speakingMessageId = None\<rparr>)))))
     = ''Hello''"
  using rejected_file_read_stays_loading by simp

subsection \<open>One stream at a time\<close>

lemma stream_chunk_isLoading:
  "isLoading (snd (snd (stream_chunk mid chunk (full, s)))) = isLoading (snd s)"
  by (cases s) (simp add: stream_chunk_def)

lemma stream_catch_isLoading:
  "isLoading (snd (stream_catch mid err s)) = isLoading (snd s)"
  by (cases s) (simp add: stream_catch_def)

lemma interview_step_invariant:
  assumes "length running \<le> 1" and "isLoading (snd s) = (running \<noteq> [])"
  shows "length (snd (interview_step e (s, running))) \<le> 1
       \<and> isLoading (snd (fst (interview_step e (s, running)))) = (snd (interview_step e (s, running)) \<noteq> [])"
proof (cases e)
  case (Send now1 now2)
  with assms show ?thesis
    by (cases s) (auto simp: InterviewTrainer_begin_def)
next
  case (SetInput t)
  with assms show ?thesis
    by (simp add: InterviewTrainer_onTranscript_def)
next
  case (Chunk k chunk)
  show ?thesis
  proof (cases "k < length running")
    case True
    obtain full s' where c: "stream_chunk (fst (running ! k)) chunk (snd (running ! k), s) = (full, s')"
      by (cases "stream_chunk (fst (running ! k)) chunk (snd (running ! k), s)") auto
    have "isLoading (snd s') = isLoading (snd s)"
      using stream_chunk_isLoading [of "fst (running ! k)" chunk "snd (running ! k)" s] c by simp
    with assms True Chunk c show ?thesis
      by auto
  next
    case False
    with assms Chunk show ?thesis by simp
  qed
next
  case (Complete k)
  show ?thesis
  proof (cases "k < length running")
    case True
    with assms(1) have "without k running = []"
      by (cases running) (auto simp: without_def)
    with True Complete show ?thesis
      by simp
  next
    case False
    with assms Complete show ?thesis by simp
  qed
next
  case (Fail k err)
  show ?thesis
  proof (cases "k < length running")
    case True
    with assms(1) have "without k running = []"
      by (cases running) (auto simp: without_def)
    with True Fail show ?thesis
      by simp
  next
    case False
    with assms Fail show ?thesis by simp
  qed
qed

lemma interview_run_invariant:
  assumes "length (snd st) \<le> 1" and "isLoading (snd (fst st)) = (snd st \<noteq> [])"
  shows "length (snd (interview_run es st)) \<le> 1
       \<and> isLoading (snd (fst (interview_run es st))) = (snd (interview_run es st) \<noteq> [])"
  using assms
proof (induction es arbitrary: st)
  case Nil
  then show ?case by simp
next
  case (Cons e es)
  obtain s running where st: "st = (s, running)"
    by (cases st) auto
  have "length (snd (interview_step e st)) \<le> 1
      \<and> isLoading (snd (fst (interview_step e st))) = (snd (interview_step e st) \<noteq> [])"
    using Cons.prems unfolding st by (intro interview_step_invariant) simp_all
  then show ?case
    using Cons.IH [of "interview_step e st"] by simp
qed

lemma interview_run_append:
  "interview_run (es @ fs) st = interview_run fs (interview_run es st)"
  by (induction es arbitrary: st) auto

lemma interview_run_chunks:
  "interview_run (map (Chunk 0) chunks) (s, [(mid, full)])
     = (snd (consume mid chunks (full, s)), [(mid, fst (consume mid chunks (full, s)))])"
proof (induction chunks arbitrary: full s)
  case Nil
  then show ?case by simp
next
  case (Cons chunk rest)
  obtain full' s' where c: "stream_chunk mid chunk (full, s) = (full', s')"
    by (cases "stream_chunk mid chunk (full, s)") auto
  then show ?case
    using Cons.IH [of s' full'] by simp
qed

text \<open>
  \<^verbatim>\<open>handleSendMessage\<close> as a whole is the run of its events: the send, then what the
  stream of that call does.
\<close>

lemma handleSendMessage_is_run:
  assumes "truthy (js_trim (input p))" and "\<not> isLoading p"
  shows "interview_run
           (Send now1 now2 # stream_events (result (startInterviewChat apiKey ai (messages p) (input p))))
           ((w, p), [])
         = (InterviewTrainer_handleSendMessage apiKey ai now1 now2 (w, p), [])"
proof -
  let ?called = "result (startInterviewChat apiKey ai (messages p) (input p))"
  let ?mid = "id (modelMessage now2)"
  let ?s1 = "InterviewTrainer_begin now1 now2 (w, p)"
  have send: "interview_step (Send now1 now2) ((w, p), []) = (?s1, [(?mid, [])])"
    using assms by simp
  have "interview_run (stream_events ?called) (?s1, [(?mid, [])]) = (try_stream ?mid ?called ?s1, [])"
  proof (cases ?called)
    case (Inl err)
    then show ?thesis
      by (simp add: try_stream_def without_def)
  next
    case (Inr st)
    obtain chunks ending where st: "st = Stream chunks ending"
      by (cases st) auto
    show ?thesis
    proof (cases ending)
      case None
      with Inr st show ?thesis
        by (simp add: interview_run_append interview_run_chunks try_stream_def without_def)
    next
      case (Some err)
      with Inr st show ?thesis
        by (simp add: interview_run_append interview_run_chunks try_stream_def without_def)
    qed
  qed
  then show ?thesis
    using assms send by (simp add: InterviewTrainer_sent)
qed

text \<open>
  C8. From an idle panel, whatever the user and the streams do, at most one call is
  running at any moment, and loading is on exactly while one is. A send that passes the
  guard opens one stream; while loading is on, \<^verbatim>\<open>handleSendMessage\<close> of the interview
  trainer returns with the state as it was and its send button is disabled, and so is
  the input box of the explainer: \<^verbatim>\<open>handleSend\<close> changes nothing and calls nothing.
  When the one running stream completes or fails, none is running and loading is off.
\<close>

theorem one_stream_at_a_time:
  "(\<not> isLoading p \<longrightarrow>
      length (snd (interview_run es ((w, p), []))) \<le> 1
      \<and> isLoading (snd (fst (interview_run es ((w, p), [])))) = (snd (interview_run es ((w, p), [])) \<noteq> []))
 \<and> (truthy (js_trim (input p)) \<and> \<not> isLoading p \<longrightarrow>
      snd (interview_step (Send now1 now2) ((w, p), [])) = [(id (modelMessage now2), [])]
      \<and> isLoading (snd (fst (interview_step (Send now1 now2) ((w, p), [])))))
 \<and> (isLoading p \<longrightarrow>
      InterviewTrainer_handleSendMessage apiKey ai now1 now2 (w, p) = (w, p)
      \<and> interview_step (Send now1 now2) ((w, p), running) = ((w, p), running)
      \<and> InterviewTrainer_send_disabled p)
 \<and> ChatInput_handleSend True (w, c) = ((w, c), None)
 \<and> ChatInput_send_disabled True c
 \<and> snd (interview_step (Complete 0) ((w, p), [r])) = []
 \<and> \<not> isLoading (snd (fst (interview_step (Complete 0) ((w, p), [r]))))
 \<and> snd (interview_step (Fail 0 err) ((w, p), [r])) = []
 \<and> \<not> isLoading (snd (fst (interview_step (Fail 0 err) ((w, p), [r]))))"
proof -
  have 1: "length (snd (interview_run es ((w, p), []))) \<le> 1
      \<and> isLoading (snd (fst (interview_run es ((w, p), [])))) = (snd (interview_run es ((w, p), [])) \<noteq> [])"
    if "\<not> isLoading p"
    using that by (intro interview_run_invariant) simp_all
  have 2: "snd (interview_step (Send now1 now2) ((w, p), [])) = [(id (modelMessage now2), [])]
      \<and> isLoading (snd (fst (interview_step (Send now1 now2) ((w, p), []))))"
    if "truthy (js_trim (input p))" "\<not> isLoading p"
    using that by (simp add: InterviewTrainer_begin_def)
  have 3: "InterviewTrainer_handleSendMessage apiKey ai now1 now2 (w, p) = (w, p)
      \<and> interview_step (Send now1 now2) ((w, p), running) = ((w, p), running)
      \<and> InterviewTrainer_send_disabled p"
    if "isLoading p"
    using that by (simp add: InterviewTrainer_handleSendMessage_def InterviewTrainer_send_disabled_def)
  have 4: "ChatInput_handleSend True (w, c) = ((w, c), None) \<and> ChatInput_send_disabled True c"
    by (simp add: ChatInput_handleSend_def ChatInput_send_disabled_def)
  have 5: "snd (interview_step (Complete 0) ((w, p), [r])) = []
         \<and> \<not> isLoading (snd (fst (interview_step (Complete 0) ((w, p), [r]))))
         \<and> snd (interview_step (Fail 0 err) ((w, p), [r])) = []
         \<and> \<not> isLoading (snd (fst (interview_step (Fail 0 err) ((w, p), [r]))))"
    by (simp add: without_def stream_finally_def stream_catch_def)
  from 1 2 3 4 5 show ?thesis
    by blast
qed

theorem one_stream_at_a_time_witness:
  "length (snd (interview_run [Send 1 2, SetInput ''again'', Send 3 4, Chunk 0 (Some ''Hi''), Send 5 6]
      ((mounted True True, \<lparr>isLoading = False, messages = [], speakingMessageId = None, input = ''hello''\<rparr>), [])))
     \<le> 1
   \<and> snd (interview_run [Send 1 2, SetInput ''again'', Send 3 4, Chunk 0 (Some ''Hi''), Send 5 6]
      ((mounted True True, \<lparr>isLoading = False, messages = [], speakingMessageId = None, input = ''hello''\<rparr>), []))
     = [(id (modelMessage 2), ''Hi'')]
   \<and> messages (snd (fst (interview_run [Send 1 2, SetInput ''again'', Send 3 4, Chunk 0 (Some ''Hi''), Send 5 6]
      ((mounted True True, \<lparr>isLoading = False, messages = [], speakingMessageId = None, input = ''hello''\<rparr>), []))))
     = [userMessage 1 ''hello'' None, (modelMessage 2)\<lparr>content := ''Hi''\<rparr>]"
proof -
  let ?p = "\<lparr>isLoading = False, messages = [], speakingMessageId = None, input = ''hello''\<rparr>"
  let ?es = "[Send 1 2, SetInput ''again'', Send 3 4, Chunk 0 (Some ''Hi''), Send 5 6]"
  have a: "\<not> isLoading ?p"
    by simp
  have t: "truthy (js_trim ''hello'')"
    by (simp add: truthy_def js_trim_def is_js_space_def)
  have m: "id (modelMessage 2) \<noteq> id (userMessage 1 ''hello'' None)"
    by (simp add: modelMessage_def userMessage_def)
  from one_stream_at_a_time [of ?p ?es "mounted True True"]
  have 1: "length (snd (interview_run ?es ((mounted True True, ?p), []))) \<le> 1"
    using a by blast
  have 2: "interview_run ?es ((mounted True True, ?p), [])
        = ((fst (fst (interview_run ?es ((mounted True True, ?p), []))),
            \<lparr>isLoading = True,
             messages = [userMessage 1 ''hello'' None, (modelMessage 2)\<lparr>content := ''Hi''\<rparr>],
             speakingMessageId = None, input = ''again''\<rparr>),
           [(id (modelMessage 2), ''Hi'')])"
    using t m
    by (simp add: InterviewTrainer_begin_def InterviewTrainer_onTranscript_def stream_chunk_def
          set_content_def chunk_text_def)
  from 1 2 show ?thesis
    by (metis fst_conv snd_conv chat.select_convs(1))
qed

section \<open>Properties of the speech hook\<close>

lemma speak_queue:
  "speechSynthesis w = Some q \<Longrightarrow> truthy text \<Longrightarrow>
   speechSynthesis (speak text w) = Some [\<lparr>utext = text\<rparr>]"
  by (simp add: speak_def synth_speak_def synth_cancel_def)

lemma speak_available:
  "speechSynthesis w \<noteq> None \<Longrightarrow> speechSynthesis (speak text w) \<noteq> None"
  by (auto simp: speak_def split: option.splits)

text \<open>
  C10. \<^verbatim>\<open>speak\<close> with the empty text, or in a browser without a synthesis engine,
  returns at its first line: nothing is cancelled and the state of the hook, the
  \<^verbatim>\<open>isSpeaking\<close> flag and the engine's queue included, is the state before the call.
\<close>

theorem speak_empty_or_unavailable_noop:
  "text = [] \<or> speechSynthesis w = None \<Longrightarrow> speak text w = w"
  by (auto simp: speak_def truthy_def split: option.splits)

theorem speak_empty_or_unavailable_noop_witness:
  "speak [] \<lparr>speechSynthesis = Some [\<lparr>utext = ''still playing''\<rparr>], SpeechRecognition = True,
             recognitions = [], isListening = False, isSpeaking = True\<rparr>
   = \<lparr>speechSynthesis = Some [\<lparr>utext = ''still playing''\<rparr>], SpeechRecognition = True,
      recognitions = [], isListening = False, isSpeaking = True\<rparr>
   \<and> speak ''hello'' \<lparr>speechSynthesis = None, SpeechRecognition = True,
             recognitions = [], isListening = False, isSpeaking = False\<rparr>
   = \<lparr>speechSynthesis = None, SpeechRecognition = True,
      recognitions = [], isListening = False, isSpeaking = False\<rparr>"
  using speak_empty_or_unavailable_noop [of "[]" "\<lparr>speechSynthesis = Some [\<lparr>utext = ''still playing''\<rparr>],
             SpeechRecognition = True, recognitions = [], isListening = False, isSpeaking = True\<rparr>"]
        speak_empty_or_unavailable_noop [of "''hello''" "\<lparr>speechSynthesis = None,
             SpeechRecognition = True, recognitions = [], isListening = False, isSpeaking = False\<rparr>"]
  by simp

subsection \<open>One utterance at a time\<close>

lemma step_queue_le1:
  "length (queue (fst s)) \<le> 1 \<Longrightarrow> length (queue (fst (step f e s))) \<le> 1"
  by (cases s; cases e) (auto simp: queue_def hook_defs Let_def split: option.splits)

lemma run_queue_le1:
  "length (queue (fst s)) \<le> 1 \<Longrightarrow> length (queue (fst (run f es s))) \<le> 1"
proof (induction es arbitrary: s)
  case Nil
  then show ?case by simp
next
  case (Cons e es)
  have "length (queue (fst (step f e s))) \<le> 1"
    using Cons.prems by (rule step_queue_le1)
  then show ?case
    using Cons.IH by simp
qed

lemma step_queue_shrinks:
  "\<not> is_Speak e \<Longrightarrow> queue (fst s) = [u] \<or> queue (fst s) = [] \<Longrightarrow>
   queue (fst (step f e s)) = [u] \<or> queue (fst (step f e s)) = []"
  by (cases s; cases e) (auto simp: queue_def hook_defs Let_def split: option.splits)

lemma run_queue_shrinks:
  "\<forall>e\<in>set es. \<not> is_Speak e \<Longrightarrow> queue (fst s) = [u] \<or> queue (fst s) = [] \<Longrightarrow>
   queue (fst (run f es s)) = [u] \<or> queue (fst (run f es s)) = []"
proof (induction es arbitrary: s)
  case Nil
  then show ?case by simp
next
  case (Cons e es)
  from Cons.prems have "queue (fst (step f e s)) = [u] \<or> queue (fst (step f e s)) = []"
    by (intro step_queue_shrinks) auto
  with Cons show ?case by simp
qed

lemma speak_speak_queue:
  assumes "speechSynthesis w \<noteq> None" and "truthy B"
  shows "queue (speak B (speak A w)) = [\<lparr>utext = B\<rparr>]"
proof -
  from assms(1) have "speechSynthesis (speak A w) \<noteq> None"
    by (rule speak_available)
  then obtain q where "speechSynthesis (speak A w) = Some q"
    by auto
  then have "speechSynthesis (speak B (speak A w)) = Some [\<lparr>utext = B\<rparr>]"
    using assms(2) by (rule speak_queue)
  then show ?thesis
    by (simp add: queue_def)
qed

text \<open>
  C3. In a browser with a synthesis engine, \<^verbatim>\<open>speak(A)\<close> followed by \<^verbatim>\<open>speak(B)\<close>
  with a text \<open>B\<close> that starts an utterance (a non-empty one; the empty text is the
  no-op of C10) leaves the engine with exactly one utterance, the one of \<open>B\<close>, whatever
  the engine held before, utterances of other components included: the utterance of
  \<open>A\<close> was cancelled before \<open>B\<close> was queued. From there on, whatever happens to the
  hook, the engine never holds more than one utterance, and as long as nothing calls
  \<^verbatim>\<open>speak\<close> again it holds the utterance of \<open>B\<close> or none: \<open>A\<close> does not come back.
\<close>

theorem speak_then_speak_single_utterance:
  assumes "speechSynthesis w \<noteq> None" and "truthy B"
  shows "queue (speak B (speak A w)) = [\<lparr>utext = B\<rparr>]
       \<and> (\<forall>es c. length (queue (fst (run f es (speak B (speak A w), c)))) \<le> 1)
       \<and> (\<forall>es c. (\<forall>e\<in>set es. \<not> is_Speak e) \<longrightarrow>
             queue (fst (run f es (speak B (speak A w), c))) = [\<lparr>utext = B\<rparr>]
           \<or> queue (fst (run f es (speak B (speak A w), c))) = [])"
proof -
  have q: "queue (speak B (speak A w)) = [\<lparr>utext = B\<rparr>]"
    using assms by (rule speak_speak_queue)
  have le: "length (queue (fst (run f es (speak B (speak A w), c)))) \<le> 1" for es c
    by (rule run_queue_le1) (simp add: q)
  have shrink: "queue (fst (run f es (speak B (speak A w), c))) = [\<lparr>utext = B\<rparr>]
           \<or> queue (fst (run f es (speak B (speak A w), c))) = []"
    if "\<forall>e\<in>set es. \<not> is_Speak e" for es c
    using that by (rule run_queue_shrinks) (simp add: q)
  from q le shrink show ?thesis
    by blast
qed

theorem speak_then_speak_single_utterance_witness:
  "speechSynthesis (mounted True True) \<noteq> None \<and> truthy ''second''
   \<and> queue (speak ''second'' (speak ''first'' (mounted True True))) = [\<lparr>utext = ''second''\<rparr>]
   \<and> length (queue (fst (run (\<lambda>t c. t) [UtteranceStart, Speak ''third'', UtteranceEnd]
        (speak ''second'' (speak ''first'' (mounted True True)), [])))) \<le> 1"
proof -
  have a: "speechSynthesis (mounted True True) \<noteq> None"
    by (simp add: mounted_def useSpeech_effect_def)
  have b: "truthy ''second''"
    by (simp add: truthy_def)
  show ?thesis
    using a b speak_then_speak_single_utterance [OF a b, of "''first''" "\<lambda>t c. t"]
    by blast
qed

subsection \<open>Transcripts\<close>

lemma all_some_map:
  "\<forall>x\<in>set xs. f x \<noteq> None \<Longrightarrow> all_some (map f xs) = Some (map (\<lambda>x. the (f x)) xs)"
  by (induction xs) auto

lemma event_transcript_complete:
  assumes "\<forall>r\<in>set results. alternatives r \<noteq> []"
  shows "event_transcript results = Some (concat (map (\<lambda>r. hd (alternatives r)) results))"
proof -
  have a: "\<forall>r\<in>set results. first_alternative r \<noteq> None"
    using assms by (auto split: list.splits)
  have b: "map (\<lambda>r. the (first_alternative r)) results = map (\<lambda>r. hd (alternatives r)) results"
    using assms by (auto split: list.splits)
  show ?thesis
    unfolding event_transcript_def all_some_map [OF a] b by simp
qed

text \<open>
  C9. A result event whose results all carry an alternative replaces the caller's live
  text with the first alternatives of the event's results, joined: what the text was
  before plays no part. This holds for the input box of the explainer and for the input
  of the interview trainer, and for every recognition object the engine fires the event
  on.
\<close>

theorem result_replaces_transcript:
  assumes "\<forall>r\<in>set results. alternatives r \<noteq> []"
  shows "input_text (recognition_onresult ChatInput_onTranscript results c)
           = concat (map (\<lambda>r. hd (alternatives r)) results)
       \<and> input (recognition_onresult InterviewTrainer_onTranscript results p)
           = concat (map (\<lambda>r. hd (alternatives r)) results)
       \<and> (i < length (recognitions w) \<and> capture (recognitions w ! i) \<noteq> Inactive \<longrightarrow>
            snd (step ChatInput_onTranscript (EngineResult i results) (w, c))
              = c\<lparr>input_text := concat (map (\<lambda>r. hd (alternatives r)) results)\<rparr>)"
  using event_transcript_complete [OF assms]
  by (simp add: recognition_onresult_def ChatInput_onTranscript_def InterviewTrainer_onTranscript_def)

theorem result_replaces_transcript_witness:
  "input_text (recognition_onresult ChatInput_onTranscript [\<lparr>alternatives = [''hello world''], isFinal = True\<rparr>]
      (recognition_onresult ChatInput_onTranscript [\<lparr>alternatives = [''hello''], isFinal = False\<rparr>]
         \<lparr>input_text = [], selectedFile = None, searchInNotes = False\<rparr>))
     = ''hello world''
   \<and> input_text (snd (run ChatInput_onTranscript
        [StartListening,
         EngineResult 0 [\<lparr>alternatives = [''hello''], isFinal = False\<rparr>],
         EngineResult 0 [\<lparr>alternatives = [''hello world''], isFinal = True\<rparr>]]
        (mounted True True, \<lparr>input_text = [], selectedFile = None, searchInNotes = False\<rparr>)))
     = ''hello world''"
proof -
  have a: "\<forall>r\<in>set [\<lparr>alternatives = [''hello world''], isFinal = True\<rparr>]. alternatives r \<noteq> []"
    by simp
  have 1: "input_text (recognition_onresult ChatInput_onTranscript [\<lparr>alternatives = [''hello world''], isFinal = True\<rparr>]
      (recognition_onresult ChatInput_onTranscript [\<lparr>alternatives = [''hello''], isFinal = False\<rparr>]
         \<lparr>input_text = [], selectedFile = None, searchInNotes = False\<rparr>))
     = ''hello world''"
    using result_replaces_transcript [OF a,
        of "recognition_onresult ChatInput_onTranscript [\<lparr>alternatives = [''hello''], isFinal = False\<rparr>]
              \<lparr>input_text = [], selectedFile = None, searchInNotes = False\<rparr>"]
    by simp
  have 2: "input_text (snd (run ChatInput_onTranscript
        [StartListening,
         EngineResult 0 [\<lparr>alternatives = [''hello''], isFinal = False\<rparr>],
         EngineResult 0 [\<lparr>alternatives = [''hello world''], isFinal = True\<rparr>]]
        (mounted True True, \<lparr>input_text = [], selectedFile = None, searchInNotes = False\<rparr>)))
     = ''hello world''"
    by (simp add: mounted_def hook_defs recognition_start_def recognition_onresult_def
          event_transcript_def ChatInput_onTranscript_def)
  from 1 2 show ?thesis
    by simp
qed

text \<open>
  C4 as stated fails. The user starts dictation and stops it; the engine then
  fires a result event on the object that was capturing: \<^verbatim>\<open>isListening\<close> is false and
  the text of the input box, empty until then, is the late transcript.
\<close>

theorem late_result_after_stop_is_delivered:
  "\<not> isListening (fst (run ChatInput_onTranscript [StartListening, StopListening]
        (mounted True True, \<lparr>input_text = [], selectedFile = None, searchInNotes = False\<rparr>)))
   \<and> input_text (snd (run ChatInput_onTranscript [StartListening, StopListening]
        (mounted True True, \<lparr>input_text = [], selectedFile = None, searchInNotes = False\<rparr>)))
     = []
   \<and> input_text (snd (run ChatInput_onTranscript
        [StartListening, StopListening, EngineResult 0 [\<lparr>alternatives = [''late''], isFinal = True\<rparr>]]
        (mounted True True, \<lparr>input_text = [], selectedFile = None, searchInNotes = False\<rparr>)))
     = ''late''"
  by (simp add: mounted_def hook_defs recognition_start_def recognition_stop_def recognition_onresult_def
        event_transcript_def ChatInput_onTranscript_def)

text \<open>
  C4, as amended. \<^verbatim>\<open>stopListening\<close>, called while listening, turns
  \<^verbatim>\<open>isListening\<close> off. The result handler asks nothing about \<^verbatim>\<open>isListening\<close>: a
  result event the engine fires afterwards, on any object that is still active, hands
  its transcript to the caller. An end event of the engine leaves \<^verbatim>\<open>isListening\<close> as
  it was.
\<close>

theorem stop_listening_as_built:
  assumes "recognitions w \<noteq> []" and "isListening w"
  shows "\<not> isListening (fst (step f StopListening (w, c)))
       \<and> (\<forall>i results t.
             i < length (recognitions (fst (step f StopListening (w, c))))
             \<and> capture (recognitions (fst (step f StopListening (w, c))) ! i) \<noteq> Inactive
             \<and> event_transcript results = Some t
           \<longrightarrow> snd (step f (EngineResult i results) (step f StopListening (w, c))) = f t c)
       \<and> (\<forall>i. isListening (fst (step f (EngineEnd i) (w, c))) = isListening w)"
proof -
  have 1: "\<not> isListening (fst (step f StopListening (w, c)))"
    using assms by (simp add: hook_defs split: option.splits)
  have 2: "snd (step f (EngineResult i results) (step f StopListening (w, c))) = f t c"
    if "i < length (recognitions (fst (step f StopListening (w, c))))"
       "capture (recognitions (fst (step f StopListening (w, c))) ! i) \<noteq> Inactive"
       "event_transcript results = Some t" for i results t
    using that by (cases "step f StopListening (w, c)") (auto simp: recognition_onresult_def)
  have 3: "isListening (fst (step f (EngineEnd i) (w, c))) = isListening w" for i
    by (simp add: recognition_onend_def Let_def)
  from 1 2 3 show ?thesis
    by blast
qed

theorem stop_listening_as_built_witness:
  "recognitions (fst (run ChatInput_onTranscript [StartListening]
       (mounted True True, \<lparr>input_text = [], selectedFile = None, searchInNotes = False\<rparr>))) \<noteq> []
   \<and> isListening (fst (run ChatInput_onTranscript [StartListening]
       (mounted True True, \<lparr>input_text = [], selectedFile = None, searchInNotes = False\<rparr>)))
   \<and> isListening (fst (step ChatInput_onTranscript StopListening
       (run ChatInput_onTranscript [StartListening]
          (mounted True True, \<lparr>input_text = [], selectedFile = None, searchInNotes = False\<rparr>)))) = False
   \<and> snd (step ChatInput_onTranscript (EngineResult 0 [\<lparr>alternatives = [''late''], isFinal = True\<rparr>])
       (step ChatInput_onTranscript StopListening
          (run ChatInput_onTranscript [StartListening]
             (mounted True True, \<lparr>input_text = [], selectedFile = None, searchInNotes = False\<rparr>))))
     = \<lparr>input_text = ''late'', selectedFile = None, searchInNotes = False\<rparr>"
proof -
  let ?c = "\<lparr>input_text = [], selectedFile = None, searchInNotes = False\<rparr>"
  let ?w = "fst (run ChatInput_onTranscript [StartListening] (mounted True True, ?c))"
  let ?ev = "[\<lparr>alternatives = [''late''], isFinal = True\<rparr>]"
  have s: "run ChatInput_onTranscript [StartListening] (mounted True True, ?c) = (?w, ?c)"
    by simp
  have a: "recognitions ?w \<noteq> []"
    by (simp add: mounted_def hook_defs recognition_start_def)
  have b: "isListening ?w"
    by (simp add: mounted_def hook_defs recognition_start_def)
  have l: "0 < length (recognitions (fst (step ChatInput_onTranscript StopListening (?w, ?c))))
         \<and> capture (recognitions (fst (step ChatInput_onTranscript StopListening (?w, ?c))) ! 0) \<noteq> Inactive"
    by (simp add: mounted_def hook_defs recognition_start_def recognition_stop_def)
  have e: "event_transcript ?ev = Some ''late''"
    by (simp add: event_transcript_def)
  from stop_listening_as_built [OF a b, of ChatInput_onTranscript ?c]
  have "\<not> isListening (fst (step ChatInput_onTranscript StopListening (?w, ?c)))
      \<and> snd (step ChatInput_onTranscript (EngineResult 0 ?ev)
               (step ChatInput_onTranscript StopListening (?w, ?c)))
        = ChatInput_onTranscript ''late'' ?c"
    using l e by blast
  with a b s show ?thesis
    by (simp add: ChatInput_onTranscript_def)
qed

subsection \<open>What becomes of the restart\<close>

lemma stale_mounted: "stale (mounted synthesis recognition)"
  by (simp add: stale_def mounted_def useSpeech_effect_def)

lemma stale_rerender: "stale w \<Longrightarrow> stale (rerender w)"
  by (auto simp: stale_def rerender_def useSpeech_effect_def useSpeech_cleanup_def split: option.splits)

lemma in_set_butlast_last: "xs \<noteq> [] \<Longrightarrow> x \<in> set xs \<Longrightarrow> x \<in> set (butlast xs) \<or> x = last xs"
  by (metis append_butlast_last_id in_set_conv_decomp_last last_snoc rotate1.simps(2) set_ConsD set_rotate1)

lemma stale_startListening: "stale w \<Longrightarrow> stale (committed w (startListening w))"
proof -
  assume s: "stale w"
  show ?thesis
  proof (cases "recognitions w \<noteq> [] \<and> \<not> isListening w \<and> capture (last (recognitions w)) = Inactive")
    case False
    then have "startListening w = w"
      by (auto simp: startListening_def recognition_start_def)
    with s show ?thesis
      by (simp add: committed_def)
  next
    case True
    let ?r = "(last (recognitions w))\<lparr>capture := Capturing\<rparr>"
    let ?w1 = "w\<lparr>recognitions := butlast (recognitions w) @ [?r], isListening := True\<rparr>"
    from True have st: "startListening w = ?w1"
      by (simp add: startListening_def recognition_start_def)
    from True have c: "committed w ?w1 = rerender ?w1"
      by (simp add: committed_def)
    from s True have sr: "SpeechRecognition w" and ls: "\<not> seen_isListening (last (recognitions w))"
      by (auto simp: stale_def)
    have old: "\<forall>r\<in>set (butlast (recognitions w)). capture r \<noteq> Inactive \<longrightarrow> \<not> seen_isListening r"
      using s by (auto simp: stale_def dest: in_set_butlastD)
    have "stale (rerender ?w1)"
      using sr ls old
      by (auto simp: stale_def rerender_def useSpeech_effect_def useSpeech_cleanup_def split: option.splits)
    with st c show ?thesis
      by simp
  qed
qed

lemma stale_stopListening: "stale w \<Longrightarrow> stale (committed w (stopListening w))"
proof -
  assume s: "stale w"
  show ?thesis
  proof (cases "recognitions w \<noteq> [] \<and> isListening w")
    case False
    then have "stopListening w = w"
      by (auto simp: stopListening_def)
    with s show ?thesis
      by (simp add: committed_def)
  next
    case True
    with s have "seen_isListening (last (recognitions w))" and sr: "SpeechRecognition w"
      by (auto simp: stale_def)
    moreover have "last (recognitions w) \<in> set (recognitions w)"
      using True by simp
    ultimately have "capture (last (recognitions w)) = Inactive"
      using s by (auto simp: stale_def)
    then have "recognition_stop (last (recognitions w)) = last (recognitions w)"
      by (simp add: recognition_stop_def)
    with True have st: "stopListening w = w\<lparr>isListening := False\<rparr>"
      by (simp add: stopListening_def)
    have "stale (rerender (w\<lparr>isListening := False\<rparr>))"
      using s sr
      by (auto simp: stale_def rerender_def useSpeech_effect_def useSpeech_cleanup_def split: option.splits)
    with st True show ?thesis
      by (simp add: committed_def)
  qed
qed

lemma stale_speech_only:
  assumes "stale w" and "recognitions w' = recognitions w" and "isListening w' = isListening w"
    and "SpeechRecognition w' = SpeechRecognition w"
  shows "stale w'"
  using assms by (simp add: stale_def)

lemma stale_committed_speech:
  assumes "stale w" and "recognitions w' = recognitions w" and "isListening w' = isListening w"
    and "SpeechRecognition w' = SpeechRecognition w"
  shows "stale (committed w w')"
proof -
  have "stale w'"
    using assms by (rule stale_speech_only)
  then show ?thesis
    by (simp add: committed_def stale_rerender)
qed

lemma stale_onend: "stale w \<Longrightarrow> stale (recognition_onend i w)"
proof -
  assume s: "stale w"
  show ?thesis
  proof (cases "i < length (recognitions w) \<and> capture (recognitions w ! i) \<noteq> Inactive")
    case False
    with s show ?thesis
      by (auto simp: recognition_onend_def)
  next
    case True
    then have n: "\<not> seen_isListening (recognitions w ! i)"
      using s by (auto simp: stale_def)
    with True have e: "recognition_onend i w
        = w\<lparr>recognitions := (recognitions w)[i := (recognitions w ! i)\<lparr>capture := Inactive\<rparr>]\<rparr>"
      by (simp add: recognition_onend_def Let_def)
    have 1: "\<forall>r\<in>set ((recognitions w)[i := (recognitions w ! i)\<lparr>capture := Inactive\<rparr>]).
               capture r \<noteq> Inactive \<longrightarrow> \<not> seen_isListening r"
      using s by (auto simp: stale_def dest!: set_update_subset_insert [THEN subsetD])
    have 2: "seen_isListening (last ((recognitions w)[i := (recognitions w ! i)\<lparr>capture := Inactive\<rparr>]))
               = seen_isListening (last (recognitions w))"
    proof -
      let ?xs = "recognitions w" and ?x = "(recognitions w ! i)\<lparr>capture := Inactive\<rparr>"
      from True have ne: "?xs \<noteq> []" and ne': "?xs[i := ?x] \<noteq> []"
        by auto
      have "last (?xs[i := ?x]) = (?xs[i := ?x]) ! (length ?xs - 1)"
        using ne' by (simp add: last_conv_nth)
      also have "seen_isListening \<dots> = seen_isListening (?xs ! (length ?xs - 1))"
        using True by (cases "i = length ?xs - 1") simp_all
      also have "?xs ! (length ?xs - 1) = last ?xs"
        using ne by (simp add: last_conv_nth)
      finally show ?thesis .
    qed
    from s 1 2 show ?thesis
      unfolding e by (auto simp: stale_def)
  qed
qed

lemma stale_step: "stale (fst s) \<Longrightarrow> stale (fst (step f e s))"
proof (cases s)
  case (Pair w c)
  assume "stale (fst s)"
  with Pair have w: "stale w" by simp
  show ?thesis
  proof (cases e)
    case StartListening
    with Pair w show ?thesis by (simp add: stale_startListening)
  next
    case StopListening
    with Pair w show ?thesis by (simp add: stale_stopListening)
  next
    case (Speak t)
    have "stale (speak t w)"
      using w by (rule stale_speech_only) (auto simp: speak_def split: option.splits)
    with Pair Speak show ?thesis by simp
  next
    case CancelSpeech
    have "stale (committed w (cancelSpeech w))"
      using w by (rule stale_committed_speech) (auto simp: cancelSpeech_def split: option.splits)
    with Pair CancelSpeech show ?thesis by simp
  next
    case Render
    with Pair w show ?thesis by (simp add: stale_rerender)
  next
    case (EngineResult i results)
    with Pair w show ?thesis by simp
  next
    case (EngineEnd i)
    with Pair w show ?thesis by (simp add: stale_onend)
  next
    case UtteranceStart
    have "stale (committed w (engine_utterance_started w))"
      using w by (rule stale_committed_speech)
        (auto simp: engine_utterance_started_def utterance_onstart_def split: option.splits)
    with Pair UtteranceStart show ?thesis by simp
  next
    case UtteranceEnd
    have "stale (committed w (engine_utterance_ended w))"
      using w by (rule stale_committed_speech)
        (auto simp: engine_utterance_ended_def utterance_onend_def split: option.splits)
    with Pair UtteranceEnd show ?thesis by simp
  next
    case UtteranceError
    have "stale (committed w (utterance_onerror w))"
      using w by (rule stale_committed_speech) (auto simp: utterance_onerror_def)
    with Pair UtteranceError show ?thesis by simp
  qed
qed

lemma stale_run: "stale (fst s) \<Longrightarrow> stale (fst (run f es s))"
proof (induction es arbitrary: s)
  case Nil
  then show ?case by simp
next
  case (Cons e es)
  then show ?case
    using stale_step [of s f e] by simp
qed

text \<open>
  So the restart of \<^verbatim>\<open>onend\<close> never happens: in every state the hook reaches from its
  mount, the object on which the engine fires an end event is inactive afterwards, also
  while \<^verbatim>\<open>isListening\<close> is true.
\<close>

lemma end_is_never_restarted:
  assumes "w = fst (run f es (mounted synthesis recognition, c))" and "i < length (recognitions w)"
  shows "capture (recognitions (recognition_onend i w) ! i) = Inactive"
proof -
  have "stale w"
    unfolding assms(1) by (rule stale_run) (simp add: stale_mounted)
  then have "capture (recognitions w ! i) \<noteq> Inactive \<Longrightarrow> \<not> seen_isListening (recognitions w ! i)"
    using assms(2) by (auto simp: stale_def)
  then show ?thesis
    using assms(2) by (auto simp: recognition_onend_def Let_def)
qed

lemma auto_stop_while_listening:
  "isListening (fst (run ChatInput_onTranscript [StartListening, EngineEnd 0]
      (mounted True True, \<lparr>input_text = [], selectedFile = None, searchInNotes = False\<rparr>)))
   \<and> list_all (\<lambda>r. capture r = Inactive)
       (recognitions (fst (run ChatInput_onTranscript [StartListening, EngineEnd 0]
          (mounted True True, \<lparr>input_text = [], selectedFile = None, searchInNotes = False\<rparr>))))"
  by (simp add: mounted_def hook_defs recognition_start_def Let_def)

end
